theory Spec2Isabelle
  imports Main
begin

section \<open>Value types supplied by other packages\<close>

text \<open>
  \<^verbatim>\<open>options.go\<close> stores and compares values of types declared in other packages
  (\<^verbatim>\<open>keyboard.Key\<close>, \<^verbatim>\<open>cell.Color\<close>, \<^verbatim>\<open>align.Horizontal\<close>, \<^verbatim>\<open>align.Vertical\<close>,
  \<^verbatim>\<open>linestyle.LineStyle\<close>, \<^verbatim>\<open>widgetapi.Widget\<close>, \<^verbatim>\<open>image.Rectangle\<close>). None of them is
  inspected by the file beyond storing them; they are modelled as tokens compared by
  equality. A Go \<^verbatim>\<open>int\<close> is modelled as \<^typ>\<open>int\<close>: the file only compares integers
  and never computes with them, so no operation can overflow.
\<close>

datatype key = Key int

datatype widget = Widget nat

text \<open>
  Modelled from the spec: \<^verbatim>\<open>cell.Color\<close> is an opaque token. \<^verbatim>\<open>ColorDefault\<close> stands
  for the zero value of the type, \<^verbatim>\<open>ColorYellow\<close> for the constant named by
  \<^verbatim>\<open>newOptions\<close>.
\<close>

datatype color = ColorDefault | ColorYellow | ColorNumber int

text \<open>
  Modelled from the spec: the alignment and line style enumerations; the first
  constructor of each stands for the zero value of the Go type.
\<close>

datatype hAlignment = HorizontalLeft | HorizontalCenter | HorizontalRight

datatype vAlignment = VerticalTop | VerticalMiddle | VerticalBottom

datatype lineStyle = LineStyleNone | LineStyle int

text \<open>\<^verbatim>\<open>image.Rectangle{Min: Point{X, Y}, Max: Point{X, Y}}\<close> of the Go standard library.\<close>

record rectangle =
  minX :: int
  minY :: int
  maxX :: int
  maxY :: int

type_synonym FocusGroup = int

section \<open>Errors\<close>

text \<open>
  Every \<^verbatim>\<open>fmt.Errorf\<close> and \<^verbatim>\<open>errors.New\<close> of the file is one constructor, carrying
  the values the message is formatted from. The setters of margin and padding share
  two message shapes; the option's name is kept as a string.
  \<^verbatim>\<open>KeyFocusGroupsPrevious\<close> reports a negative group with the very message of
  \<^verbatim>\<open>KeyFocusGroupsNext\<close>, so both use \<open>InvalidGroupInKeyFocusGroupsNext\<close>.
  \<open>AreaError\<close> stands for any error returned by the \<^verbatim>\<open>area\<close> package.
\<close>

datatype error =
    DuplicateContainerID string
  | OnlyOneSplitAllowed int int
  | InvalidSplitPercentage int
  | InvalidFixedValue int
  | EmptyID
  | InvalidValue string int
  | CannotSpecifyBoth string int string int
  | InvalidKeyFocusGroups FocusGroup
  | InvalidGroupInKeyFocusGroupsNext FocusGroup key
  | AlreadyKeyFocusGroupsPrevious key
  | AlreadyKeyFocusGroupsNext key
  | AreaError

section \<open>The options of a container\<close>

record margin =
  topCells :: int
  topPerc :: int
  rightCells :: int
  rightPerc :: int
  bottomCells :: int
  bottomPerc :: int
  leftCells :: int
  leftPerc :: int

record padding =
  topCells :: int
  topPerc :: int
  rightCells :: int
  rightPerc :: int
  bottomCells :: int
  bottomPerc :: int
  leftCells :: int
  leftPerc :: int

text \<open>
  The pointers \<^verbatim>\<open>titleColor\<close> and \<^verbatim>\<open>titleFocusedColor\<close> are \<open>None\<close> for \<^verbatim>\<open>nil\<close>.
  The file never writes through them (a setter stores the address of a fresh copy of
  its argument), so the pointee is kept by value.
\<close>

record inherited =
  borderColor :: color
  focusedColor :: color
  titleColor :: "color option"
  titleFocusedColor :: "color option"

text \<open>
  \<^verbatim>\<open>focusGroups\<close> is \<^verbatim>\<open>map[FocusGroup]bool\<close>. Reading a Go map at an absent key gives
  the zero value \<^verbatim>\<open>false\<close>.
\<close>

type_synonym focusGroups = "FocusGroup \<rightharpoonup> bool"

definition inGroups :: "focusGroups \<Rightarrow> FocusGroup \<Rightarrow> bool" where
  "inGroups fg g = (case fg g of None \<Rightarrow> False | Some b \<Rightarrow> b)"

record globalOptions =
  keyFocusNext :: "key option"
  keyFocusPrevious :: "key option"
  keyFocusGroupsNext :: "key \<rightharpoonup> focusGroups"
  keyFocusGroupsPrevious :: "key \<rightharpoonup> focusGroups"

datatype splitType = splitTypeVertical | splitTypeHorizontal

text \<open>
  The field \<^verbatim>\<open>global *globalOptions\<close> is a pointer: it is modelled as an address
  into the store of \<open>globalOptions\<close> objects below. The field \<^verbatim>\<open>id\<close> is named
  \<open>id_opt\<close> (\<open>id\<close> is the identity function of HOL).
\<close>

record options =
  id_opt :: string
  global :: nat
  inherited :: inherited
  split :: splitType
  splitReversed :: bool
  splitPercent :: int
  splitFixed :: int
  widget :: "widget option"
  hAlign :: hAlignment
  vAlign :: vAlignment
  border :: lineStyle
  borderTitle :: string
  borderTitleHAlign :: hAlignment
  padding :: padding
  margin :: margin
  keyFocusSkip :: bool
  keyFocusGroups :: "FocusGroup list"

definition DefaultSplitReversed :: bool where
  "DefaultSplitReversed = False"

definition DefaultSplitPercent :: int where
  "DefaultSplitPercent = 50"

definition DefaultSplitFixed :: int where
  "DefaultSplitFixed = - 1"

section \<open>Containers and the store\<close>

text \<open>
  Modelled from the spec: the \<^verbatim>\<open>Container\<close> struct is declared in \<^verbatim>\<open>container.go\<close>,
  which is not among the sources. \<^verbatim>\<open>options.go\<close> uses its fields \<^verbatim>\<open>opts\<close>,
  \<^verbatim>\<open>first\<close>, \<^verbatim>\<open>second\<close> and \<^verbatim>\<open>focusTracker\<close>. A container owns its two children
  (a strictly binary tree, no cycles), \<open>None\<close> is the \<^verbatim>\<open>nil\<close> child. \<open>cid\<close> is the
  identity of the container (its address), which the focus tracker records.
\<close>

datatype container =
  Container (cid: nat) (opts: options) (first: "container option") (second: "container option")

text \<open>
  The store holds what containers share by reference: the \<open>globalOptions\<close> objects,
  one allocation counter for them and one for containers, and the container the focus
  tracker holds as active.
\<close>

record store =
  globals :: "nat \<Rightarrow> globalOptions"
  nextGlobal :: nat
  nextCont :: nat
  active :: "nat option"

type_synonym result = "error option \<times> store \<times> container"

definition withOpts :: "(options \<Rightarrow> options) \<Rightarrow> container \<Rightarrow> container" where
  "withOpts f c = Container (cid c) (f (opts c)) (first c) (second c)"

definition withMargin :: "(margin \<Rightarrow> margin) \<Rightarrow> container \<Rightarrow> container" where
  "withMargin f c = withOpts (\<lambda>o1. o1\<lparr>margin := f (margin o1)\<rparr>) c"

definition withPadding :: "(padding \<Rightarrow> padding) \<Rightarrow> container \<Rightarrow> container" where
  "withPadding f c = withOpts (\<lambda>o1. o1\<lparr>padding := f (padding o1)\<rparr>) c"

definition withInherited :: "(inherited \<Rightarrow> inherited) \<Rightarrow> container \<Rightarrow> container" where
  "withInherited f c = withOpts (\<lambda>o1. o1\<lparr>inherited := f (inherited o1)\<rparr>) c"

text \<open>A write through the pointer \<^verbatim>\<open>c.opts.global\<close>.\<close>

definition withGlobal :: "(globalOptions \<Rightarrow> globalOptions) \<Rightarrow> store \<Rightarrow> container \<Rightarrow> store" where
  "withGlobal f st c = st\<lparr>globals := (globals st)(global (opts c) := f (globals st (global (opts c))))\<rparr>"

text \<open>A read through the pointer \<^verbatim>\<open>c.opts.global\<close>.\<close>

definition globalOf :: "store \<Rightarrow> container \<Rightarrow> globalOptions" where
  "globalOf st c = globals st (global (opts c))"

section \<open>newOptions\<close>

text \<open>
  \<^verbatim>\<open>newOptions\<close> allocates a fresh \<open>globalOptions\<close> object with two empty maps in
  every call, and then, for a non-nil parent, overwrites the pointer with the parent's
  pointer and the inherited struct with a copy of the parent's.
\<close>

definition newOptions :: "options option \<Rightarrow> store \<Rightarrow> options \<times> store" where
  "newOptions parent st =
    (let g = nextGlobal st;
         st' = st\<lparr>globals := (globals st)(g :=
                  \<lparr>keyFocusNext = None, keyFocusPrevious = None,
                   keyFocusGroupsNext = Map.empty, keyFocusGroupsPrevious = Map.empty\<rparr>),
                nextGlobal := Suc g\<rparr>;
         opts0 = \<lparr>id_opt = [], global = g,
                  inherited = \<lparr>borderColor = ColorDefault, focusedColor = ColorYellow,
                               titleColor = None, titleFocusedColor = None\<rparr>,
                  split = splitTypeVertical,
                  splitReversed = DefaultSplitReversed,
                  splitPercent = DefaultSplitPercent,
                  splitFixed = DefaultSplitFixed,
                  widget = None,
                  hAlign = HorizontalCenter,
                  vAlign = VerticalMiddle,
                  border = LineStyleNone,
                  borderTitle = [],
                  borderTitleHAlign = HorizontalLeft,
                  padding = \<lparr>padding.topCells = 0, topPerc = 0, rightCells = 0, rightPerc = 0,
                             bottomCells = 0, bottomPerc = 0, leftCells = 0, leftPerc = 0\<rparr>,
                  margin = \<lparr>margin.topCells = 0, topPerc = 0, rightCells = 0, rightPerc = 0,
                            bottomCells = 0, bottomPerc = 0, leftCells = 0, leftPerc = 0\<rparr>,
                  keyFocusSkip = False,
                  keyFocusGroups = []\<rparr>
     in case parent of
          None \<Rightarrow> (opts0, st')
        | Some p \<Rightarrow> (opts0\<lparr>global := global p, inherited := inherited p\<rparr>, st'))"

text \<open>
  Modelled from the spec: a container is created (at the root with no parent, or as a
  child of a split) with the options \<^verbatim>\<open>newOptions\<close> gives it, no children and no
  widget; the constructor itself is in \<^verbatim>\<open>container.go\<close>, not among the sources.
\<close>

definition newContainer :: "options option \<Rightarrow> store \<Rightarrow> container \<times> store" where
  "newContainer parent st =
    (case newOptions parent st of
       (o1, st') \<Rightarrow> (Container (nextCont st') o1 None None, st'\<lparr>nextCont := Suc (nextCont st')\<rparr>))"

definition emptyStore :: store where
  "emptyStore = \<lparr>globals = (\<lambda>_. \<lparr>keyFocusNext = None, keyFocusPrevious = None,
                    keyFocusGroupsNext = Map.empty, keyFocusGroupsPrevious = Map.empty\<rparr>),
                 nextGlobal = 0, nextCont = 0, active = None\<rparr>"

section \<open>Applying margin and padding to an area\<close>

text \<open>
  \<^verbatim>\<open>area.Shrink\<close> and \<^verbatim>\<open>area.ShrinkPercent\<close> belong to the package
  \<^verbatim>\<open>private/area\<close>, which is not among the sources: \<open>margin_apply\<close> and
  \<open>padding_apply\<close> take them as the parameters \<open>shrink\<close> and \<open>shrinkPercent\<close>.
  The \<^verbatim>\<open>switch\<close> takes its first case as soon as any of the four cell values is not
  zero, and looks at the percentages only when all four cell values are zero.
\<close>

type_synonym shrinker = "rectangle \<Rightarrow> int \<Rightarrow> int \<Rightarrow> int \<Rightarrow> int \<Rightarrow> error + rectangle"

definition margin_apply :: "shrinker \<Rightarrow> shrinker \<Rightarrow> margin \<Rightarrow> rectangle \<Rightarrow> error + rectangle" where
  "margin_apply shrink shrinkPercent p ar =
    (if margin.topCells p \<noteq> 0 \<or> margin.rightCells p \<noteq> 0 \<or> margin.bottomCells p \<noteq> 0
        \<or> margin.leftCells p \<noteq> 0
     then shrink ar (margin.topCells p) (margin.rightCells p) (margin.bottomCells p) (margin.leftCells p)
     else if margin.topPerc p \<noteq> 0 \<or> margin.rightPerc p \<noteq> 0 \<or> margin.bottomPerc p \<noteq> 0
        \<or> margin.leftPerc p \<noteq> 0
     then shrinkPercent ar (margin.topPerc p) (margin.rightPerc p) (margin.bottomPerc p) (margin.leftPerc p)
     else Inr ar)"

definition padding_apply :: "shrinker \<Rightarrow> shrinker \<Rightarrow> padding \<Rightarrow> rectangle \<Rightarrow> error + rectangle" where
  "padding_apply shrink shrinkPercent p ar =
    (if padding.topCells p \<noteq> 0 \<or> padding.rightCells p \<noteq> 0 \<or> padding.bottomCells p \<noteq> 0
        \<or> padding.leftCells p \<noteq> 0
     then shrink ar (padding.topCells p) (padding.rightCells p) (padding.bottomCells p) (padding.leftCells p)
     else if padding.topPerc p \<noteq> 0 \<or> padding.rightPerc p \<noteq> 0 \<or> padding.bottomPerc p \<noteq> 0
        \<or> padding.leftPerc p \<noteq> 0
     then shrinkPercent ar (padding.topPerc p) (padding.rightPerc p) (padding.bottomPerc p) (padding.leftPerc p)
     else Inr ar)"

text \<open>
  Modelled from the spec: the geometry helper of section 6,
  \<^verbatim>\<open>shrink(rect, top, right, bottom, left) -> rect | error\<close> and
  \<^verbatim>\<open>shrinkPercent(rect, topPct, rightPct, bottomPct, leftPct) -> rect | error\<close>. A side is
  moved inwards by the given number of cells, or by the given percentage of the height
  (top, bottom) or of the width (left, right); shrinking below zero in either
  dimension is a failure and is not clamped. They are used only to evaluate
  \<open>margin_apply\<close> and \<open>padding_apply\<close> at concrete rectangles.
\<close>

definition Shrink :: shrinker where
  "Shrink ar topC rightC bottomC leftC =
    (if topC < 0 \<or> rightC < 0 \<or> bottomC < 0 \<or> leftC < 0 then Inl AreaError
     else if maxX ar - rightC < minX ar + leftC \<or> maxY ar - bottomC < minY ar + topC then Inl AreaError
     else Inr \<lparr>minX = minX ar + leftC, minY = minY ar + topC,
               maxX = maxX ar - rightC, maxY = maxY ar - bottomC\<rparr>)"

definition ShrinkPercent :: shrinker where
  "ShrinkPercent ar topP rightP bottomP leftP =
    (if topP < 0 \<or> 100 < topP \<or> rightP < 0 \<or> 100 < rightP
        \<or> bottomP < 0 \<or> 100 < bottomP \<or> leftP < 0 \<or> 100 < leftP then Inl AreaError
     else Shrink ar ((maxY ar - minY ar) * topP div 100) ((maxX ar - minX ar) * rightP div 100)
                    ((maxY ar - minY ar) * bottomP div 100) ((maxX ar - minX ar) * leftP div 100))"

section \<open>Focus groups\<close>

text \<open>The loop of \<^verbatim>\<open>firstMatching\<close> returns at the first group of the container that
  the map holds as \<^verbatim>\<open>true\<close>, and \<^verbatim>\<open>(false, 0)\<close> when the list is exhausted.\<close>

fun firstMatching :: "focusGroups \<Rightarrow> FocusGroup list \<Rightarrow> bool \<times> FocusGroup" where
  "firstMatching fg [] = (False, 0)"
| "firstMatching fg (cg # contGroups) =
     (if inGroups fg cg then (True, cg) else firstMatching fg contGroups)"

section \<open>Validation of the tree\<close>

text \<open>\<^verbatim>\<open>seen\<close> is a \<^verbatim>\<open>map[string]bool\<close>; an absent key reads \<^verbatim>\<open>false\<close>.\<close>

type_synonym seenIDs = "string \<rightharpoonup> bool"

definition seenID :: "seenIDs \<Rightarrow> string \<Rightarrow> bool" where
  "seenID seen k = (case seen k of None \<Rightarrow> False | Some b \<Rightarrow> b)"

definition validateIds :: "container \<Rightarrow> seenIDs \<Rightarrow> error option \<times> seenIDs" where
  "validateIds c seen =
    (if id_opt (opts c) = [] then (None, seen)
     else if seenID seen (id_opt (opts c)) then (Some (DuplicateContainerID (id_opt (opts c))), seen)
     else (None, seen(id_opt (opts c) \<mapsto> True)))"

definition validateSplits :: "container \<Rightarrow> error option" where
  "validateSplits c =
    (if splitFixed (opts c) > DefaultSplitFixed \<and> splitPercent (opts c) \<noteq> DefaultSplitPercent
     then Some (OnlyOneSplitAllowed (splitFixed (opts c)) (splitPercent (opts c)))
     else None)"

text \<open>The visit function that \<^verbatim>\<open>validateOptions\<close> hands to the walker.\<close>

definition validateVisit :: "container \<Rightarrow> seenIDs \<Rightarrow> error option \<times> seenIDs" where
  "validateVisit c seen =
    (case validateIds c seen of
       (Some err, seen') \<Rightarrow> (Some err, seen')
     | (None, seen') \<Rightarrow>
         (case validateSplits c of
            Some err \<Rightarrow> (Some err, seen')
          | None \<Rightarrow> (None, seen')))"

text \<open>
  Modelled from the spec: the walker \<^verbatim>\<open>preOrder\<close> is declared in a file that is not
  among the sources. Section 4.2: it walks every container once in pre-order, the
  parent before its children and the first child before the second, and the first
  failure of the visit function ends the walk and is the error reported. The pair
  carries the error found so far (\<^verbatim>\<open>errStr\<close>) and the state the visit function
  mutates.
\<close>

fun preOrder :: "container \<Rightarrow> (container \<Rightarrow> 's \<Rightarrow> error option \<times> 's) \<Rightarrow> error option \<times> 's
    \<Rightarrow> error option \<times> 's" where
  "preOrder (Container i o1 f s) visit (errStr, seen) =
    (case errStr of
       Some err \<Rightarrow> (Some err, seen)
     | None \<Rightarrow>
        (case visit (Container i o1 f s) seen of
           (Some err, seen') \<Rightarrow> (Some err, seen')
         | (None, seen') \<Rightarrow>
             (let r1 = (case f of None \<Rightarrow> (None, seen') | Some x \<Rightarrow> preOrder x visit (None, seen'))
              in case s of None \<Rightarrow> r1 | Some y \<Rightarrow> preOrder y visit r1)))"

definition validateOptions :: "container \<Rightarrow> error option" where
  "validateOptions c = fst (preOrder c validateVisit (None, Map.empty))"

section \<open>Split options\<close>

datatype SplitOption =
    SplitPercent int
  | SplitPercentFromEnd int
  | SplitFixed int
  | SplitFixedFromEnd int

text \<open>A split option mutates the options it is given and may fail; the options
  come back in both cases.\<close>

fun setSplit :: "SplitOption \<Rightarrow> options \<Rightarrow> error option \<times> options" where
  "setSplit (SplitPercent p) opts1 =
     (if p \<le> 0 \<or> p \<ge> 100 then (Some (InvalidSplitPercentage p), opts1)
      else (None, opts1\<lparr>splitPercent := p\<rparr>))"
| "setSplit (SplitPercentFromEnd p) opts1 =
     (if p \<le> 0 \<or> p \<ge> 100 then (Some (InvalidSplitPercentage p), opts1)
      else (None, opts1\<lparr>splitReversed := True, splitPercent := p\<rparr>))"
| "setSplit (SplitFixed cells) opts1 =
     (if cells < 0 then (Some (InvalidFixedValue cells), opts1)
      else (None, opts1\<lparr>splitFixed := cells\<rparr>))"
| "setSplit (SplitFixedFromEnd cells) opts1 =
     (if cells < 0 then (Some (InvalidFixedValue cells), opts1)
      else (None, opts1\<lparr>splitFixed := cells, splitReversed := True\<rparr>))"

text \<open>The loop over the split options inside \<^verbatim>\<open>SplitVertical\<close> and
  \<^verbatim>\<open>SplitHorizontal\<close>: it returns at the first failure.\<close>

fun setSplits :: "SplitOption list \<Rightarrow> options \<Rightarrow> error option \<times> options" where
  "setSplits [] opts1 = (None, opts1)"
| "setSplits (opt # rest) opts1 =
     (case setSplit opt opts1 of
        (Some err, opts2) \<Rightarrow> (Some err, opts2)
      | (None, opts2) \<Rightarrow> setSplits rest opts2)"

section \<open>Loops of the focus group options\<close>

text \<open>The loop of \<^verbatim>\<open>KeyFocusGroups\<close>: every group before the first negative one has
  been appended when the error is returned.\<close>

fun appendFocusGroups :: "FocusGroup list \<Rightarrow> FocusGroup list \<Rightarrow> error option \<times> FocusGroup list" where
  "appendFocusGroups [] acc = (None, acc)"
| "appendFocusGroups (g # groups) acc =
     (if g < 0 then (Some (InvalidKeyFocusGroups g), acc)
      else appendFocusGroups groups (acc @ [g]))"

text \<open>The loop of \<^verbatim>\<open>KeyFocusGroupsNext\<close> on the shared \<open>globalOptions\<close> object.\<close>

fun keyFocusGroupsNextLoop :: "key \<Rightarrow> FocusGroup list \<Rightarrow> globalOptions \<Rightarrow> error option \<times> globalOptions" where
  "keyFocusGroupsNextLoop k [] gl = (None, gl)"
| "keyFocusGroupsNextLoop k (g # groups) gl =
     (if g < 0 then (Some (InvalidGroupInKeyFocusGroupsNext g k), gl)
      else case keyFocusGroupsPrevious gl k of
        Some fgPrev \<Rightarrow> (Some (AlreadyKeyFocusGroupsPrevious k), gl)
      | None \<Rightarrow>
          (let fg = (case keyFocusGroupsNext gl k of None \<Rightarrow> Map.empty | Some fg0 \<Rightarrow> fg0)
           in keyFocusGroupsNextLoop k groups
                (gl\<lparr>keyFocusGroupsNext := (keyFocusGroupsNext gl)(k \<mapsto> fg(g \<mapsto> True))\<rparr>)))"

text \<open>The loop of \<^verbatim>\<open>KeyFocusGroupsPrevious\<close>.\<close>

fun keyFocusGroupsPreviousLoop :: "key \<Rightarrow> FocusGroup list \<Rightarrow> globalOptions \<Rightarrow> error option \<times> globalOptions" where
  "keyFocusGroupsPreviousLoop k [] gl = (None, gl)"
| "keyFocusGroupsPreviousLoop k (g # groups) gl =
     (if g < 0 then (Some (InvalidGroupInKeyFocusGroupsNext g k), gl)
      else case keyFocusGroupsNext gl k of
        Some fgNext \<Rightarrow> (Some (AlreadyKeyFocusGroupsNext k), gl)
      | None \<Rightarrow>
          (let fg = (case keyFocusGroupsPrevious gl k of None \<Rightarrow> Map.empty | Some fg0 \<Rightarrow> fg0)
           in keyFocusGroupsPreviousLoop k groups
                (gl\<lparr>keyFocusGroupsPrevious := (keyFocusGroupsPrevious gl)(k \<mapsto> fg(g \<mapsto> True))\<rparr>)))"

section \<open>Options\<close>

text \<open>
  An \<^verbatim>\<open>Option\<close> is a closure built by one of the exported functions of the file (the
  interface method \<^verbatim>\<open>set\<close> is unexported, so no other package can implement it). The
  datatype has one constructor per such function, carrying its arguments.
  \<^verbatim>\<open>Left(opts...)\<close>, \<^verbatim>\<open>Right\<close>, \<^verbatim>\<open>Top\<close> and \<^verbatim>\<open>Bottom\<close> wrap a list of options, and
  a nil \<^verbatim>\<open>leftOption\<close> yields the empty list: the two first arguments of a split are
  these lists. A \<^verbatim>\<open>nil\<close> widget is \<open>None\<close>.
\<close>

datatype Option =
    SplitVertical "Option list" "Option list" "SplitOption list"
  | SplitHorizontal "Option list" "Option list" "SplitOption list"
  | ID string
  | Clear
  | PlaceWidget "widget option"
  | MarginTop int
  | MarginRight int
  | MarginBottom int
  | MarginLeft int
  | MarginTopPercent int
  | MarginRightPercent int
  | MarginBottomPercent int
  | MarginLeftPercent int
  | PaddingTop int
  | PaddingRight int
  | PaddingBottom int
  | PaddingLeft int
  | PaddingTopPercent int
  | PaddingRightPercent int
  | PaddingBottomPercent int
  | PaddingLeftPercent int
  | AlignHorizontal hAlignment
  | AlignVertical vAlignment
  | Border lineStyle
  | BorderTitle string
  | BorderTitleAlignLeft
  | BorderTitleAlignCenter
  | BorderTitleAlignRight
  | BorderColor color
  | FocusedColor color
  | TitleColor color
  | TitleFocusedColor color
  | KeyFocusNext key
  | KeyFocusPrevious key
  | KeyFocusSkip
  | KeyFocusGroups "FocusGroup list"
  | KeyFocusGroupsNext key "FocusGroup list"
  | KeyFocusGroupsPrevious key "FocusGroup list"
  | Focused

text \<open>
  \<open>set_option\<close> is the method \<^verbatim>\<open>set\<close> (\<open>set\<close> is taken in HOL): it runs the closure
  on the container and the store, and returns the error, if any, with the container
  and the store as the closure left them.

  Modelled from the spec: \<^verbatim>\<open>createFirst\<close> and \<^verbatim>\<open>createSecond\<close> are methods of
  \<^verbatim>\<open>container.go\<close>, not among the sources. Section 4.1: each creates a new child
  container, starting from the parent's current inherited options and sharing the
  parent's global options, and applies the caller's list of options to it; the child
  becomes \<^verbatim>\<open>first\<close> (\<^verbatim>\<open>second\<close>) of the parent when that succeeds, and the failure
  is passed on otherwise.

  Modelled from the spec: \<^verbatim>\<open>focusTracker.setActive\<close>, called by \<^verbatim>\<open>Focused\<close>, is not
  among the sources either. Section 4.4: a direct focus assignment overrides the
  current focus unconditionally; the store records the identity of the container.
\<close>

fun set_option :: "Option \<Rightarrow> store \<Rightarrow> container \<Rightarrow> result"
and applyOptions :: "Option list \<Rightarrow> store \<Rightarrow> container \<Rightarrow> result"
and createFirst :: "Option list \<Rightarrow> store \<Rightarrow> container \<Rightarrow> result"
and createSecond :: "Option list \<Rightarrow> store \<Rightarrow> container \<Rightarrow> result" where
  "applyOptions [] st c = (None, st, c)"
| "applyOptions (opt # rest) st c =
     (case set_option opt st c of
        (Some err, st', c') \<Rightarrow> (Some err, st', c')
      | (None, st', c') \<Rightarrow> applyOptions rest st' c')"
| "createFirst childOpts st c =
     (case newContainer (Some (opts c)) st of
        (child, st1) \<Rightarrow>
          (case applyOptions childOpts st1 child of
             (Some err, st2, child') \<Rightarrow> (Some err, st2, c)
           | (None, st2, child') \<Rightarrow> (None, st2, Container (cid c) (opts c) (Some child') (second c))))"
| "createSecond childOpts st c =
     (case newContainer (Some (opts c)) st of
        (child, st1) \<Rightarrow>
          (case applyOptions childOpts st1 child of
             (Some err, st2, child') \<Rightarrow> (Some err, st2, c)
           | (None, st2, child') \<Rightarrow> (None, st2, Container (cid c) (opts c) (first c) (Some child'))))"
| "set_option (SplitVertical l r sopts) st c =
     (case setSplits sopts ((opts c)\<lparr>split := splitTypeVertical, widget := None\<rparr>) of
        (Some err, opts') \<Rightarrow> (Some err, st, Container (cid c) opts' (first c) (second c))
      | (None, opts') \<Rightarrow>
          (case createFirst l st (Container (cid c) opts' (first c) (second c)) of
             (Some err, st1, c1) \<Rightarrow> (Some err, st1, c1)
           | (None, st1, c1) \<Rightarrow> createSecond r st1 c1))"
| "set_option (SplitHorizontal t b sopts) st c =
     (case setSplits sopts ((opts c)\<lparr>split := splitTypeHorizontal, widget := None\<rparr>) of
        (Some err, opts') \<Rightarrow> (Some err, st, Container (cid c) opts' (first c) (second c))
      | (None, opts') \<Rightarrow>
          (case createFirst t st (Container (cid c) opts' (first c) (second c)) of
             (Some err, st1, c1) \<Rightarrow> (Some err, st1, c1)
           | (None, st1, c1) \<Rightarrow> createSecond b st1 c1))"
| "set_option (ID i) st c =
     (if i = [] then (Some EmptyID, st, c)
      else (None, st, withOpts (\<lambda>o1. o1\<lparr>id_opt := i\<rparr>) c))"
| "set_option Clear st c =
     (None, st, Container (cid c) ((opts c)\<lparr>widget := None\<rparr>) None None)"
| "set_option (PlaceWidget w) st c =
     (None, st, Container (cid c) ((opts c)\<lparr>widget := w\<rparr>) None None)"
| "set_option (MarginTop cells) st c =
     (if cells < 0 then (Some (InvalidValue ''MarginTop'' cells), st, c)
      else if margin.topPerc (margin (opts c)) > 0
      then (Some (CannotSpecifyBoth ''MarginTop'' cells ''MarginTopPercent'' (margin.topPerc (margin (opts c)))), st, c)
      else (None, st, withMargin (\<lambda>m. m\<lparr>margin.topCells := cells\<rparr>) c))"
| "set_option (MarginRight cells) st c =
     (if cells < 0 then (Some (InvalidValue ''MarginRight'' cells), st, c)
      else if margin.rightPerc (margin (opts c)) > 0
      then (Some (CannotSpecifyBoth ''MarginRight'' cells ''MarginRightPercent'' (margin.rightPerc (margin (opts c)))), st, c)
      else (None, st, withMargin (\<lambda>m. m\<lparr>margin.rightCells := cells\<rparr>) c))"
| "set_option (MarginBottom cells) st c =
     (if cells < 0 then (Some (InvalidValue ''MarginBottom'' cells), st, c)
      else if margin.bottomPerc (margin (opts c)) > 0
      then (Some (CannotSpecifyBoth ''MarginBottom'' cells ''MarginBottomPercent'' (margin.bottomPerc (margin (opts c)))), st, c)
      else (None, st, withMargin (\<lambda>m. m\<lparr>margin.bottomCells := cells\<rparr>) c))"
| "set_option (MarginLeft cells) st c =
     (if cells < 0 then (Some (InvalidValue ''MarginLeft'' cells), st, c)
      else if margin.leftPerc (margin (opts c)) > 0
      then (Some (CannotSpecifyBoth ''MarginLeft'' cells ''MarginLeftPercent'' (margin.leftPerc (margin (opts c)))), st, c)
      else (None, st, withMargin (\<lambda>m. m\<lparr>margin.leftCells := cells\<rparr>) c))"
| "set_option (MarginTopPercent perc) st c =
     (if perc < 0 \<or> perc > 100 then (Some (InvalidValue ''MarginTopPercent'' perc), st, c)
      else if margin.topCells (margin (opts c)) > 0
      then (Some (CannotSpecifyBoth ''MarginTopPercent'' perc ''MarginTop'' (margin.topCells (margin (opts c)))), st, c)
      else (None, st, withMargin (\<lambda>m. m\<lparr>margin.topPerc := perc\<rparr>) c))"
| "set_option (MarginRightPercent perc) st c =
     (if perc < 0 \<or> perc > 100 then (Some (InvalidValue ''MarginRightPercent'' perc), st, c)
      else if margin.rightCells (margin (opts c)) > 0
      then (Some (CannotSpecifyBoth ''MarginRightPercent'' perc ''MarginRight'' (margin.rightCells (margin (opts c)))), st, c)
      else (None, st, withMargin (\<lambda>m. m\<lparr>margin.rightPerc := perc\<rparr>) c))"
| "set_option (MarginBottomPercent perc) st c =
     (if perc < 0 \<or> perc > 100 then (Some (InvalidValue ''MarginBottomPercent'' perc), st, c)
      else if margin.bottomCells (margin (opts c)) > 0
      then (Some (CannotSpecifyBoth ''MarginBottomPercent'' perc ''MarginBottom'' (margin.bottomCells (margin (opts c)))), st, c)
      else (None, st, withMargin (\<lambda>m. m\<lparr>margin.bottomPerc := perc\<rparr>) c))"
| "set_option (MarginLeftPercent perc) st c =
     (if perc < 0 \<or> perc > 100 then (Some (InvalidValue ''MarginLeftPercent'' perc), st, c)
      else if margin.leftCells (margin (opts c)) > 0
      then (Some (CannotSpecifyBoth ''MarginLeftPercent'' perc ''MarginLeft'' (margin.leftCells (margin (opts c)))), st, c)
      else (None, st, withMargin (\<lambda>m. m\<lparr>margin.leftPerc := perc\<rparr>) c))"
| "set_option (PaddingTop cells) st c =
     (if cells < 0 then (Some (InvalidValue ''PaddingTop'' cells), st, c)
      else if padding.topPerc (padding (opts c)) > 0
      then (Some (CannotSpecifyBoth ''PaddingTop'' cells ''PaddingTopPercent'' (padding.topPerc (padding (opts c)))), st, c)
      else (None, st, withPadding (\<lambda>m. m\<lparr>padding.topCells := cells\<rparr>) c))"
| "set_option (PaddingRight cells) st c =
     (if cells < 0 then (Some (InvalidValue ''PaddingRight'' cells), st, c)
      else if padding.rightPerc (padding (opts c)) > 0
      then (Some (CannotSpecifyBoth ''PaddingRight'' cells ''PaddingRightPercent'' (padding.rightPerc (padding (opts c)))), st, c)
      else (None, st, withPadding (\<lambda>m. m\<lparr>padding.rightCells := cells\<rparr>) c))"
| "set_option (PaddingBottom cells) st c =
     (if cells < 0 then (Some (InvalidValue ''PaddingBottom'' cells), st, c)
      else if padding.bottomPerc (padding (opts c)) > 0
      then (Some (CannotSpecifyBoth ''PaddingBottom'' cells ''PaddingBottomPercent'' (padding.bottomPerc (padding (opts c)))), st, c)
      else (None, st, withPadding (\<lambda>m. m\<lparr>padding.bottomCells := cells\<rparr>) c))"
| "set_option (PaddingLeft cells) st c =
     (if cells < 0 then (Some (InvalidValue ''PaddingLeft'' cells), st, c)
      else if padding.leftPerc (padding (opts c)) > 0
      then (Some (CannotSpecifyBoth ''PaddingLeft'' cells ''PaddingLeftPercent'' (padding.leftPerc (padding (opts c)))), st, c)
      else (None, st, withPadding (\<lambda>m. m\<lparr>padding.leftCells := cells\<rparr>) c))"
| "set_option (PaddingTopPercent perc) st c =
     (if perc < 0 \<or> perc > 100 then (Some (InvalidValue ''PaddingTopPercent'' perc), st, c)
      else if padding.topCells (padding (opts c)) > 0
      then (Some (CannotSpecifyBoth ''PaddingTopPercent'' perc ''PaddingTop'' (padding.topCells (padding (opts c)))), st, c)
      else (None, st, withPadding (\<lambda>m. m\<lparr>padding.topPerc := perc\<rparr>) c))"
| "set_option (PaddingRightPercent perc) st c =
     (if perc < 0 \<or> perc > 100 then (Some (InvalidValue ''PaddingRightPercent'' perc), st, c)
      else if padding.rightCells (padding (opts c)) > 0
      then (Some (CannotSpecifyBoth ''PaddingRightPercent'' perc ''PaddingRight'' (padding.rightCells (padding (opts c)))), st, c)
      else (None, st, withPadding (\<lambda>m. m\<lparr>padding.rightPerc := perc\<rparr>) c))"
| "set_option (PaddingBottomPercent perc) st c =
     (if perc < 0 \<or> perc > 100 then (Some (InvalidValue ''PaddingBottomPercent'' perc), st, c)
      else if padding.bottomCells (padding (opts c)) > 0
      then (Some (CannotSpecifyBoth ''PaddingBottomPercent'' perc ''PaddingBottom'' (padding.bottomCells (padding (opts c)))), st, c)
      else (None, st, withPadding (\<lambda>m. m\<lparr>padding.bottomPerc := perc\<rparr>) c))"
| "set_option (PaddingLeftPercent perc) st c =
     (if perc < 0 \<or> perc > 100 then (Some (InvalidValue ''PaddingLeftPercent'' perc), st, c)
      else if padding.leftCells (padding (opts c)) > 0
      then (Some (CannotSpecifyBoth ''PaddingLeftPercent'' perc ''PaddingLeft'' (padding.leftCells (padding (opts c)))), st, c)
      else (None, st, withPadding (\<lambda>m. m\<lparr>padding.leftPerc := perc\<rparr>) c))"
| "set_option (AlignHorizontal h) st c = (None, st, withOpts (\<lambda>o1. o1\<lparr>hAlign := h\<rparr>) c)"
| "set_option (AlignVertical v) st c = (None, st, withOpts (\<lambda>o1. o1\<lparr>vAlign := v\<rparr>) c)"
| "set_option (Border ls) st c = (None, st, withOpts (\<lambda>o1. o1\<lparr>border := ls\<rparr>) c)"
| "set_option (BorderTitle title) st c = (None, st, withOpts (\<lambda>o1. o1\<lparr>borderTitle := title\<rparr>) c)"
| "set_option BorderTitleAlignLeft st c =
     (None, st, withOpts (\<lambda>o1. o1\<lparr>borderTitleHAlign := HorizontalLeft\<rparr>) c)"
| "set_option BorderTitleAlignCenter st c =
     (None, st, withOpts (\<lambda>o1. o1\<lparr>borderTitleHAlign := HorizontalCenter\<rparr>) c)"
| "set_option BorderTitleAlignRight st c =
     (None, st, withOpts (\<lambda>o1. o1\<lparr>borderTitleHAlign := HorizontalRight\<rparr>) c)"
| "set_option (BorderColor col) st c = (None, st, withInherited (\<lambda>h. h\<lparr>borderColor := col\<rparr>) c)"
| "set_option (FocusedColor col) st c = (None, st, withInherited (\<lambda>h. h\<lparr>focusedColor := col\<rparr>) c)"
| "set_option (TitleColor col) st c = (None, st, withInherited (\<lambda>h. h\<lparr>titleColor := Some col\<rparr>) c)"
| "set_option (TitleFocusedColor col) st c =
     (None, st, withInherited (\<lambda>h. h\<lparr>titleFocusedColor := Some col\<rparr>) c)"
| "set_option (KeyFocusNext k) st c = (None, withGlobal (\<lambda>gl. gl\<lparr>keyFocusNext := Some k\<rparr>) st c, c)"
| "set_option (KeyFocusPrevious k) st c =
     (None, withGlobal (\<lambda>gl. gl\<lparr>keyFocusPrevious := Some k\<rparr>) st c, c)"
| "set_option KeyFocusSkip st c = (None, st, withOpts (\<lambda>o1. o1\<lparr>keyFocusSkip := True\<rparr>) c)"
| "set_option (KeyFocusGroups groups) st c =
     (case appendFocusGroups groups (if groups = [] then [] else keyFocusGroups (opts c)) of
        (err, groups') \<Rightarrow> (err, st, withOpts (\<lambda>o1. o1\<lparr>keyFocusGroups := groups'\<rparr>) c))"
| "set_option (KeyFocusGroupsNext k groups) st c =
     (case keyFocusGroupsNextLoop k groups (globalOf st c) of
        (err, gl') \<Rightarrow> (err, withGlobal (\<lambda>_. gl') st c, c))"
| "set_option (KeyFocusGroupsPrevious k groups) st c =
     (case keyFocusGroupsPreviousLoop k groups (globalOf st c) of
        (err, gl') \<Rightarrow> (err, withGlobal (\<lambda>_. gl') st c, c))"
| "set_option Focused st c = (None, st\<lparr>active := Some (cid c)\<rparr>, c)"

section \<open>Vocabulary of the properties\<close>

text \<open>The containers of a tree, the parent before its children and the first child
  before the second.\<close>

fun nodes :: "container \<Rightarrow> container list" where
  "nodes (Container i o1 f s) =
     Container i o1 f s
       # (case f of None \<Rightarrow> [] | Some x \<Rightarrow> nodes x) @ (case s of None \<Rightarrow> [] | Some y \<Rightarrow> nodes y)"

definition hasTwoChildren :: "container \<Rightarrow> bool" where
  "hasTwoChildren c = (first c \<noteq> None \<and> second c \<noteq> None)"

definition hasWidget :: "container \<Rightarrow> bool" where
  "hasWidget c = (widget (opts c) \<noteq> None)"

definition hasNeither :: "container \<Rightarrow> bool" where
  "hasNeither c = (\<not> hasTwoChildren c \<and> \<not> hasWidget c)"

text \<open>A container that holds a widget holds no child at all.\<close>

definition widgetExcludesChildren :: "container \<Rightarrow> bool" where
  "widgetExcludesChildren c = (widget (opts c) = None \<or> (first c = None \<and> second c = None))"

definition treeOK :: "container \<Rightarrow> bool" where
  "treeOK c = list_all widgetExcludesChildren (nodes c)"

text \<open>Every container of the tree holds the pointer \<open>g\<close> to the global options.\<close>

definition sharesGlobal :: "nat \<Rightarrow> container \<Rightarrow> bool" where
  "sharesGlobal g c = list_all (\<lambda>n. global (opts n) = g) (nodes c)"

text \<open>The identifiers of the tree that are not empty, in pre-order.\<close>

definition nonEmptyIds :: "container \<Rightarrow> string list" where
  "nonEmptyIds c = filter (\<lambda>i. i \<noteq> []) (map (\<lambda>n. id_opt (opts n)) (nodes c))"

text \<open>A fresh root container and the store it is created in, for concrete inputs.\<close>

definition root0 :: container where
  "root0 = fst (newContainer None emptyStore)"

definition store0 :: store where
  "store0 = snd (newContainer None emptyStore)"

text \<open>
  The walk of \<open>preOrder\<close> as a loop over a list of containers: an error ends it. It is
  used to reason about \<open>preOrder\<close> on the list \<open>nodes\<close> of a tree.
\<close>

fun visitList :: "(container \<Rightarrow> 's \<Rightarrow> error option \<times> 's) \<Rightarrow> container list \<Rightarrow> error option \<times> 's
    \<Rightarrow> error option \<times> 's" where
  "visitList visit [] r = r"
| "visitList visit (n # ns) (Some err, seen) = (Some err, seen)"
| "visitList visit (n # ns) (None, seen) =
     (case visit n seen of
        (Some err, seen') \<Rightarrow> (Some err, seen')
      | (None, seen') \<Rightarrow> visitList visit ns (None, seen'))"

text \<open>The identifiers of a list of containers that are not empty.\<close>

definition idsOf :: "container list \<Rightarrow> string list" where
  "idsOf ns = filter (\<lambda>i. i \<noteq> []) (map (\<lambda>n. id_opt (opts n)) ns)"

text \<open>A root with two children that carry the same identifier \<open>i\<close>.\<close>

definition dupTree :: "string \<Rightarrow> container" where
  "dupTree i =
     Container 0 (opts root0)
       (Some (Container 1 ((opts root0)\<lparr>id_opt := i\<rparr>) None None))
       (Some (Container 2 ((opts root0)\<lparr>id_opt := i\<rparr>) None None))"

text \<open>
  The options of a list succeed one after the other: each is run by \<open>set_option\<close> on
  the store and the container that the option before it left, and returns no error.
  The pair on the right is the store and the container after the last one. The
  relation speaks of \<open>set_option\<close> only, not of the loop of \<open>applyOptions\<close>.
\<close>

inductive succeedInOrder :: "Option list \<Rightarrow> store \<times> container \<Rightarrow> store \<times> container \<Rightarrow> bool" where
  none: "succeedInOrder [] s s"
| step: "set_option opt st c = (None, st1, c1) \<Longrightarrow> succeedInOrder rest (st1, c1) s2 \<Longrightarrow>
         succeedInOrder (opt # rest) (st, c) s2"

section \<open>A fresh root container\<close>

lemma root0_simps:
  "cid root0 = 0" "first root0 = None" "second root0 = None"
  "widget (opts root0) = None" "global (opts root0) = 0" "id_opt (opts root0) = []"
  "margin (opts root0) = \<lparr>margin.topCells = 0, topPerc = 0, rightCells = 0, rightPerc = 0,
                            bottomCells = 0, bottomPerc = 0, leftCells = 0, leftPerc = 0\<rparr>"
  "splitPercent (opts root0) = 50" "splitFixed (opts root0) = - 1"
  by (simp_all add: root0_def newContainer_def newOptions_def emptyStore_def
      DefaultSplitPercent_def DefaultSplitFixed_def)

section \<open>The first matching focus group\<close>

lemma firstMatching_none:
  "(\<forall>g \<in> set contGroups. \<not> inGroups fg g) \<Longrightarrow> firstMatching fg contGroups = (False, 0)"
  by (induction contGroups) auto

lemma firstMatching_some:
  "\<exists>g \<in> set contGroups. inGroups fg g \<Longrightarrow>
   \<exists>i < length contGroups. firstMatching fg contGroups = (True, contGroups ! i)
      \<and> inGroups fg (contGroups ! i) \<and> (\<forall>j < i. \<not> inGroups fg (contGroups ! j))"
proof (induction contGroups)
  case Nil
  then show ?case by simp
next
  case (Cons cg rest)
  show ?case
  proof (cases "inGroups fg cg")
    case True
    then have "firstMatching fg (cg # rest) = (True, (cg # rest) ! 0)
        \<and> inGroups fg ((cg # rest) ! 0) \<and> (\<forall>j < (0::nat). \<not> inGroups fg ((cg # rest) ! j))"
      by simp
    then show ?thesis by blast
  next
    case False
    with Cons.prems have "\<exists>g \<in> set rest. inGroups fg g" by auto
    from Cons.IH [OF this] obtain i where i: "i < length rest"
      "firstMatching fg rest = (True, rest ! i)" "inGroups fg (rest ! i)"
      "\<forall>j < i. \<not> inGroups fg (rest ! j)" by blast
    have "\<forall>j < Suc i. \<not> inGroups fg ((cg # rest) ! j)"
    proof (intro allI impI)
      fix j assume "j < Suc i"
      then show "\<not> inGroups fg ((cg # rest) ! j)"
        using False i(4) by (cases j) auto
    qed
    with i False have "Suc i < length (cg # rest) \<and> firstMatching fg (cg # rest) = (True, (cg # rest) ! Suc i)
        \<and> inGroups fg ((cg # rest) ! Suc i) \<and> (\<forall>j < Suc i. \<not> inGroups fg ((cg # rest) ! j))"
      by simp
    then show ?thesis by blast
  qed
qed

text \<open>
  C6. \<^verbatim>\<open>firstMatching\<close> scans the groups the container declares, in the order of the
  declaration: either it reports a match with the group at some position \<open>i\<close> of the
  list, that group is in the key's set and no group at an earlier position is; or no
  declared group is in the set and it reports no match (\<^verbatim>\<open>false, 0\<close>). A container
  that declares the groups 2, 1 against a key mapped to the groups 1 and 2 resolves
  to group 2.
\<close>

theorem firstMatching_declaration_order:
  "((\<exists>i < length contGroups. firstMatching fg contGroups = (True, contGroups ! i)
        \<and> inGroups fg (contGroups ! i) \<and> (\<forall>j < i. \<not> inGroups fg (contGroups ! j)))
    \<or> (firstMatching fg contGroups = (False, 0) \<and> (\<forall>g \<in> set contGroups. \<not> inGroups fg g)))
   \<and> firstMatching [1 \<mapsto> True, 2 \<mapsto> True] [2, 1] = (True, 2)"
proof -
  have a: "firstMatching [1 \<mapsto> True, 2 \<mapsto> True] [2, 1] = (True, 2)"
    by (simp add: inGroups_def)
  show ?thesis
  proof (cases "\<exists>g \<in> set contGroups. inGroups fg g")
    case True
    from firstMatching_some [OF True] a show ?thesis by blast
  next
    case False
    then have "\<forall>g \<in> set contGroups. \<not> inGroups fg g" by blast
    with firstMatching_none [OF this] a show ?thesis by blast
  qed
qed

theorem firstMatching_declaration_order_witness:
  "firstMatching [1 \<mapsto> True, 2 \<mapsto> True] [3, 2, 1] = (True, 2)
   \<and> firstMatching [1 \<mapsto> True, 2 \<mapsto> True] [3, 4] = (False, 0)"
proof -
  have "firstMatching [1 \<mapsto> True, 2 \<mapsto> True] [3, 4] = (False, 0)"
    using firstMatching_declaration_order [of "[3, 4]" "[1 \<mapsto> True, 2 \<mapsto> True]"]
    by (simp add: inGroups_def)
  moreover have "firstMatching [1 \<mapsto> True, 2 \<mapsto> True] [3, 2, 1] = (True, 2)"
    by (simp add: inGroups_def)
  ultimately show ?thesis by simp
qed

section \<open>Clear and PlaceWidget\<close>

text \<open>
  C8. Whatever the container holds before (two children, a widget or nothing), applying
  \<^verbatim>\<open>Clear()\<close> and then \<^verbatim>\<open>PlaceWidget(w)\<close> succeeds and leaves a container whose widget
  is \<open>w\<close> and whose first and second child are both nil.
\<close>

theorem clear_then_placeWidget:
  "\<exists>c'. applyOptions [Clear, PlaceWidget w] st c = (None, st, c')
      \<and> widget (opts c') = w \<and> first c' = None \<and> second c' = None
      \<and> hasTwoChildren c' = False"
  by (simp add: hasTwoChildren_def)

theorem clear_then_placeWidget_witness:
  "case applyOptions [SplitVertical [PlaceWidget (Some (Widget 1))] [] [], Clear,
        PlaceWidget (Some (Widget 7))] store0 root0 of
     (e, st', c') \<Rightarrow> e = None \<and> widget (opts c') = Some (Widget 7) \<and> first c' = None \<and> second c' = None"
proof -
  obtain e1 st1 c1 where s: "set_option (SplitVertical [PlaceWidget (Some (Widget 1))] [] []) store0 root0 = (e1, st1, c1)"
    using prod_cases3 by blast
  have e1: "e1 = None" using s
    by (simp add: newContainer_def newOptions_def split: prod.splits)
  from clear_then_placeWidget [of "Some (Widget 7)" st1 c1] s e1 show ?thesis
    by auto
qed

text \<open>
  C10. \<^verbatim>\<open>Clear()\<close> and \<^verbatim>\<open>PlaceWidget(w)\<close> never fail and change nothing but the widget
  and the two child pointers: the store (and with it the shared global options and the
  focus tracker) is the same, and so are the identity of the container, its
  identifier, split type and sizing values, margin, padding, border style, title and
  title alignment, widget alignment, focus-skip flag, focus groups, inherited colours
  and the pointer to the global options.
\<close>

theorem clear_placeWidget_frame:
  assumes "opt = Clear \<or> opt = PlaceWidget w"
    and "set_option opt st c = (e, st', c')"
  shows "e = None \<and> st' = st \<and> globalOf st' c' = globalOf st c \<and> cid c' = cid c
     \<and> id_opt (opts c') = id_opt (opts c)
     \<and> split (opts c') = split (opts c)
     \<and> splitReversed (opts c') = splitReversed (opts c)
     \<and> splitPercent (opts c') = splitPercent (opts c)
     \<and> splitFixed (opts c') = splitFixed (opts c)
     \<and> margin (opts c') = margin (opts c)
     \<and> padding (opts c') = padding (opts c)
     \<and> border (opts c') = border (opts c)
     \<and> borderTitle (opts c') = borderTitle (opts c)
     \<and> borderTitleHAlign (opts c') = borderTitleHAlign (opts c)
     \<and> hAlign (opts c') = hAlign (opts c)
     \<and> vAlign (opts c') = vAlign (opts c)
     \<and> keyFocusSkip (opts c') = keyFocusSkip (opts c)
     \<and> keyFocusGroups (opts c') = keyFocusGroups (opts c)
     \<and> inherited (opts c') = inherited (opts c)
     \<and> global (opts c') = global (opts c)
     \<and> opts c' = (opts c)\<lparr>widget := widget (opts c')\<rparr>"
  using assms by (auto simp: globalOf_def)

theorem clear_placeWidget_frame_witness:
  "set_option (PlaceWidget (Some (Widget 3))) store0 root0
     = (None, store0, Container 0 ((opts root0)\<lparr>widget := Some (Widget 3)\<rparr>) None None)
   \<and> set_option Clear store0 root0
     = (None, store0, Container 0 ((opts root0)\<lparr>widget := None\<rparr>) None None)"
  using clear_placeWidget_frame [of "PlaceWidget (Some (Widget 3))" "Some (Widget 3)" store0 root0]
    clear_placeWidget_frame [of Clear None store0 root0]
  by (simp add: root0_simps)

section \<open>Applying a list of options\<close>

lemma applyOptions_append:
  "applyOptions (xs @ ys) st c =
     (case applyOptions xs st c of
        (Some err, st', c') \<Rightarrow> (Some err, st', c')
      | (None, st', c') \<Rightarrow> applyOptions ys st' c')"
  by (induction xs arbitrary: st c) (auto split: prod.splits option.splits)

lemma applyOptions_single: "applyOptions [opt] st c = set_option opt st c"
proof -
  obtain e st' c' where s: "set_option opt st c = (e, st', c')" using prod_cases3 by blast
  then show ?thesis by (cases e) simp_all
qed

lemma succeedInOrder_applyOptions:
  "succeedInOrder xs s s' \<Longrightarrow> applyOptions xs (fst s) (snd s) = (None, fst s', snd s')"
  by (induction rule: succeedInOrder.induct) simp_all

lemma applyOptions_succeedInOrder:
  "applyOptions xs st c = (None, st1, c1) \<Longrightarrow> succeedInOrder xs (st, c) (st1, c1)"
proof (induction xs arbitrary: st c)
  case Nil
  then show ?case by (simp add: succeedInOrder.none)
next
  case (Cons opt rest)
  obtain e st' c' where s: "set_option opt st c = (e, st', c')" using prod_cases3 by blast
  show ?case
  proof (cases e)
    case None
    with s Cons.prems have "applyOptions rest st' c' = (None, st1, c1)" by simp
    from Cons.IH [OF this] s None show ?thesis by (auto intro: succeedInOrder.step)
  next
    case (Some err)
    with s Cons.prems show ?thesis by simp
  qed
qed

text \<open>
  C5. \<^verbatim>\<open>applyOptions\<close> applies the options strictly in the order of the list, each on
  the store and the container the one before it left: the empty list changes nothing, a
  list of one option does exactly what that option's \<^verbatim>\<open>set\<close> does (error, store and
  container), and a list \<open>xs @ ys\<close> runs \<open>xs\<close> and then, only if \<open>xs\<close> returned no
  error, \<open>ys\<close> on what \<open>xs\<close> left; an error of \<open>xs\<close> is returned with the store and
  the container as they were at that moment. The call returns no error with the store
  \<open>st1\<close> and the container \<open>c1\<close> exactly when the options succeed one after the
  other and leave \<open>st1\<close> and \<open>c1\<close>. When the options \<open>xs\<close> succeed one after the
  other and leave \<open>st1\<close> and \<open>c1\<close>, and the next option \<open>opt\<close> fails there with
  \<open>err\<close>, leaving \<open>st2\<close> and \<open>c2\<close>, the call returns \<open>err\<close>, \<open>st2\<close> and \<open>c2\<close>
  whatever options \<open>ys\<close> follow: what the earlier options and the failing option did
  is kept, nothing is undone and no later option is applied.
\<close>

theorem applyOptions_stops_at_first_error:
  "applyOptions [] st c = (None, st, c)
   \<and> applyOptions [opt] st c = set_option opt st c
   \<and> applyOptions (xs @ ys) st c =
        (case applyOptions xs st c of
           (Some err, st', c') \<Rightarrow> (Some err, st', c')
         | (None, st', c') \<Rightarrow> applyOptions ys st' c')
   \<and> (succeedInOrder xs (st, c) (st1, c1) \<longleftrightarrow> applyOptions xs st c = (None, st1, c1))
   \<and> (succeedInOrder xs (st, c) (st1, c1) \<and> set_option opt st1 c1 = (Some err, st2, c2)
        \<longrightarrow> applyOptions (xs @ opt # ys) st c = (Some err, st2, c2))"
proof -
  have a: "applyOptions [] st c = (None, st, c)" by simp
  have b: "applyOptions [opt] st c = set_option opt st c" by (rule applyOptions_single)
  have c: "applyOptions (xs @ ys) st c =
        (case applyOptions xs st c of
           (Some err, st', c') \<Rightarrow> (Some err, st', c')
         | (None, st', c') \<Rightarrow> applyOptions ys st' c')"
    by (rule applyOptions_append)
  have d: "succeedInOrder xs (st, c) (st1, c1) \<longleftrightarrow> applyOptions xs st c = (None, st1, c1)"
    using succeedInOrder_applyOptions [of xs "(st, c)" "(st1, c1)"] applyOptions_succeedInOrder
    by auto
  have e: "succeedInOrder xs (st, c) (st1, c1) \<and> set_option opt st1 c1 = (Some err, st2, c2)
        \<longrightarrow> applyOptions (xs @ opt # ys) st c = (Some err, st2, c2)"
  proof
    assume h: "succeedInOrder xs (st, c) (st1, c1) \<and> set_option opt st1 c1 = (Some err, st2, c2)"
    with d have "applyOptions xs st c = (None, st1, c1)" by simp
    with h show "applyOptions (xs @ opt # ys) st c = (Some err, st2, c2)"
      by (simp add: applyOptions_append)
  qed
  from a b c d e show ?thesis by (intro conjI)
qed

theorem applyOptions_stops_at_first_error_witness:
  "applyOptions ([KeyFocusNext (Key 5), Focused, MarginTop 1] @ MarginTopPercent 10 # [ID ''x''])
       store0 root0
     = (Some (CannotSpecifyBoth ''MarginTopPercent'' 10 ''MarginTop'' 1),
        (withGlobal (\<lambda>gl. gl\<lparr>keyFocusNext := Some (Key 5)\<rparr>) store0 root0)\<lparr>active := Some 0\<rparr>,
        withMargin (\<lambda>m. m\<lparr>margin.topCells := 1\<rparr>) root0)"
proof -
  let ?st1 = "withGlobal (\<lambda>gl. gl\<lparr>keyFocusNext := Some (Key 5)\<rparr>) store0 root0"
  let ?st2 = "?st1\<lparr>active := Some 0\<rparr>"
  let ?c3 = "withMargin (\<lambda>m. m\<lparr>margin.topCells := 1\<rparr>) root0"
  have s1: "set_option (KeyFocusNext (Key 5)) store0 root0 = (None, ?st1, root0)" by simp
  have s2: "set_option Focused ?st1 root0 = (None, ?st2, root0)" by (simp add: root0_simps)
  have s3: "set_option (MarginTop 1) ?st2 root0 = (None, ?st2, ?c3)" by (simp add: root0_simps)
  have run: "succeedInOrder [KeyFocusNext (Key 5), Focused, MarginTop 1] (store0, root0) (?st2, ?c3)"
    by (rule succeedInOrder.step [OF s1], rule succeedInOrder.step [OF s2],
        rule succeedInOrder.step [OF s3], rule succeedInOrder.none)
  have f: "set_option (MarginTopPercent 10) ?st2 ?c3
      = (Some (CannotSpecifyBoth ''MarginTopPercent'' 10 ''MarginTop'' 1), ?st2, ?c3)"
    by (simp add: withMargin_def withOpts_def)
  from applyOptions_stops_at_first_error [where xs = "[KeyFocusNext (Key 5), Focused, MarginTop 1]"
      and st = store0 and c = root0 and ys = "[ID ''x'']",
      THEN conjunct2, THEN conjunct2, THEN conjunct2, THEN conjunct2, THEN mp, OF conjI, OF run f]
  show ?thesis .
qed

section \<open>Keys of the focus groups\<close>

lemma next_loop_conflict_error:
  "groups \<noteq> [] \<Longrightarrow> \<forall>g \<in> set groups. 0 \<le> g \<Longrightarrow> keyFocusGroupsPrevious gl k \<noteq> None \<Longrightarrow>
   keyFocusGroupsNextLoop k groups gl = (Some (AlreadyKeyFocusGroupsPrevious k), gl)"
  by (cases groups) (auto split: option.splits)

lemma previous_loop_conflict_error:
  "groups \<noteq> [] \<Longrightarrow> \<forall>g \<in> set groups. 0 \<le> g \<Longrightarrow> keyFocusGroupsNext gl k \<noteq> None \<Longrightarrow>
   keyFocusGroupsPreviousLoop k groups gl = (Some (AlreadyKeyFocusGroupsNext k), gl)"
  by (cases groups) (auto split: option.splits)

lemma next_loop_negative:
  "\<exists>g \<in> set groups. g < 0 \<Longrightarrow> fst (keyFocusGroupsNextLoop k groups gl) \<noteq> None"
proof (induction groups arbitrary: gl)
  case Nil
  then show ?case by simp
next
  case (Cons g groups)
  show ?case
  proof (cases "g < 0")
    case True
    then show ?thesis by simp
  next
    case False
    with Cons.prems have "\<exists>g \<in> set groups. g < 0" by auto
    from Cons.IH [OF this] False show ?thesis
      by (simp add: Let_def split: option.splits)
  qed
qed

lemma previous_loop_negative:
  "\<exists>g \<in> set groups. g < 0 \<Longrightarrow> fst (keyFocusGroupsPreviousLoop k groups gl) \<noteq> None"
proof (induction groups arbitrary: gl)
  case Nil
  then show ?case by simp
next
  case (Cons g groups)
  show ?case
  proof (cases "g < 0")
    case True
    then show ?thesis by simp
  next
    case False
    with Cons.prems have "\<exists>g \<in> set groups. g < 0" by auto
    from Cons.IH [OF this] False show ?thesis
      by (simp add: Let_def split: option.splits)
  qed
qed

lemma withGlobal_same: "withGlobal (\<lambda>_. globalOf st c) st c = st"
  by (simp add: withGlobal_def globalOf_def)

text \<open>
  C9. For a non-empty list of non-negative groups, \<^verbatim>\<open>KeyFocusGroupsNext(k, groups...)\<close>
  fails when the key \<open>k\<close> is present in the map \<^verbatim>\<open>keyFocusGroupsPrevious\<close> of the
  tree's global options, and \<^verbatim>\<open>KeyFocusGroupsPrevious(k, groups...)\<close> fails when \<open>k\<close> is
  present in \<^verbatim>\<open>keyFocusGroupsNext\<close>; both leave the store and the container as they
  were. Either option fails when one of its groups is negative.
\<close>

theorem keyFocusGroups_conflicts:
  "(groups \<noteq> [] \<and> (\<forall>g \<in> set groups. 0 \<le> g) \<and> keyFocusGroupsPrevious (globalOf st c) k \<noteq> None
      \<longrightarrow> set_option (KeyFocusGroupsNext k groups) st c = (Some (AlreadyKeyFocusGroupsPrevious k), st, c))
   \<and> (groups \<noteq> [] \<and> (\<forall>g \<in> set groups. 0 \<le> g) \<and> keyFocusGroupsNext (globalOf st c) k \<noteq> None
      \<longrightarrow> set_option (KeyFocusGroupsPrevious k groups) st c = (Some (AlreadyKeyFocusGroupsNext k), st, c))
   \<and> ((\<exists>g \<in> set groups. g < 0) \<longrightarrow> fst (set_option (KeyFocusGroupsNext k groups) st c) \<noteq> None)
   \<and> ((\<exists>g \<in> set groups. g < 0) \<longrightarrow> fst (set_option (KeyFocusGroupsPrevious k groups) st c) \<noteq> None)"
proof (intro conjI impI)
  assume a: "groups \<noteq> [] \<and> (\<forall>g \<in> set groups. 0 \<le> g) \<and> keyFocusGroupsPrevious (globalOf st c) k \<noteq> None"
  then show "set_option (KeyFocusGroupsNext k groups) st c = (Some (AlreadyKeyFocusGroupsPrevious k), st, c)"
    by (simp add: next_loop_conflict_error withGlobal_same)
next
  assume a: "groups \<noteq> [] \<and> (\<forall>g \<in> set groups. 0 \<le> g) \<and> keyFocusGroupsNext (globalOf st c) k \<noteq> None"
  then show "set_option (KeyFocusGroupsPrevious k groups) st c = (Some (AlreadyKeyFocusGroupsNext k), st, c)"
    by (simp add: previous_loop_conflict_error withGlobal_same)
next
  assume "\<exists>g \<in> set groups. g < 0"
  from next_loop_negative [OF this, of k "globalOf st c"]
  show "fst (set_option (KeyFocusGroupsNext k groups) st c) \<noteq> None"
    by (auto split: prod.splits)
next
  assume "\<exists>g \<in> set groups. g < 0"
  from previous_loop_negative [OF this, of k "globalOf st c"]
  show "fst (set_option (KeyFocusGroupsPrevious k groups) st c) \<noteq> None"
    by (auto split: prod.splits)
qed

theorem keyFocusGroups_conflicts_witness:
  "fst (applyOptions [KeyFocusGroupsPrevious (Key 9) [1], KeyFocusGroupsNext (Key 9) [1, 2]] store0 root0)
     = Some (AlreadyKeyFocusGroupsPrevious (Key 9))
   \<and> fst (applyOptions [KeyFocusGroupsNext (Key 9) [1], KeyFocusGroupsPrevious (Key 9) [0]] store0 root0)
     = Some (AlreadyKeyFocusGroupsNext (Key 9))
   \<and> fst (set_option (KeyFocusGroupsNext (Key 9) [1, - 1]) store0 root0) \<noteq> None
   \<and> fst (set_option (KeyFocusGroupsPrevious (Key 9) [1, - 1]) store0 root0) \<noteq> None"
proof -
  obtain e1 st1 c1 where p: "set_option (KeyFocusGroupsPrevious (Key 9) [1]) store0 root0 = (e1, st1, c1)"
    using prod_cases3 by blast
  have p1: "e1 = None" "c1 = root0" "keyFocusGroupsPrevious (globalOf st1 c1) (Key 9) \<noteq> None"
    using p by (auto simp: globalOf_def withGlobal_def store0_def root0_def newContainer_def
        newOptions_def emptyStore_def Let_def split: option.splits)
  obtain e2 st2 c2 where n: "set_option (KeyFocusGroupsNext (Key 9) [1]) store0 root0 = (e2, st2, c2)"
    using prod_cases3 by blast
  have n1: "e2 = None" "c2 = root0" "keyFocusGroupsNext (globalOf st2 c2) (Key 9) \<noteq> None"
    using n by (auto simp: globalOf_def withGlobal_def store0_def root0_def newContainer_def
        newOptions_def emptyStore_def Let_def split: option.splits)
  from keyFocusGroups_conflicts [of "[1, 2]" st1 c1 "Key 9"] p p1
  have a: "fst (applyOptions [KeyFocusGroupsPrevious (Key 9) [1], KeyFocusGroupsNext (Key 9) [1, 2]] store0 root0)
     = Some (AlreadyKeyFocusGroupsPrevious (Key 9))"
    by simp
  from keyFocusGroups_conflicts [of "[0]" st2 c2 "Key 9"] n n1
  have b: "fst (applyOptions [KeyFocusGroupsNext (Key 9) [1], KeyFocusGroupsPrevious (Key 9) [0]] store0 root0)
     = Some (AlreadyKeyFocusGroupsNext (Key 9))"
    by simp
  from keyFocusGroups_conflicts [of "[1, - 1]" store0 root0 "Key 9"]
  have c: "fst (set_option (KeyFocusGroupsNext (Key 9) [1, - 1]) store0 root0) \<noteq> None"
    "fst (set_option (KeyFocusGroupsPrevious (Key 9) [1, - 1]) store0 root0) \<noteq> None"
    by simp_all
  from a b c show ?thesis by simp
qed

section \<open>Validation of identifiers\<close>

lemma visitList_error [simp]: "visitList visit ns (Some err, seen) = (Some err, seen)"
  by (cases ns) auto

lemma visitList_append:
  "visitList visit (xs @ ys) r = visitList visit ys (visitList visit xs r)"
proof (induction xs arbitrary: r)
  case Nil
  then show ?case by simp
next
  case (Cons n xs)
  obtain e seen where r: "r = (e, seen)" by force
  show ?case
  proof (cases e)
    case None
    with r Cons.IH show ?thesis by (auto split: prod.splits option.splits)
  next
    case (Some err)
    with r show ?thesis by simp
  qed
qed

lemma preOrder_visitList:
  "preOrder c visit r = visitList visit (nodes c) r"
proof (induction c visit r rule: preOrder.induct)
  case (1 i o1 f s visit errStr seen)
  show ?case
  proof (cases errStr)
    case (Some err)
    then show ?thesis by simp
  next
    case None
    obtain e seen' where v: "visit (Container i o1 f s) seen = (e, seen')" by force
    show ?thesis
    proof (cases e)
      case (Some err)
      with None v show ?thesis by simp
    next
      case en: None
      define r1 where "r1 = (case f of None \<Rightarrow> (None, seen') | Some x \<Rightarrow> preOrder x visit (None, seen'))"
      have a: "r1 = visitList visit (case f of None \<Rightarrow> [] | Some x \<Rightarrow> nodes x) (None, seen')"
        unfolding r1_def using "1.IH"(1) [OF None v [symmetric] en] by (auto split: option.splits)
      have b: "(case s of None \<Rightarrow> r1 | Some y \<Rightarrow> preOrder y visit r1)
          = visitList visit (case s of None \<Rightarrow> [] | Some y \<Rightarrow> nodes y) r1"
        using "1.IH"(2) [OF None v [symmetric] en r1_def] by (auto split: option.splits)
      have "preOrder (Container i o1 f s) visit (errStr, seen)
          = (case s of None \<Rightarrow> r1 | Some y \<Rightarrow> preOrder y visit r1)"
        using None v en by (cases s) (simp_all add: r1_def)
      also have "\<dots> = visitList visit (case s of None \<Rightarrow> [] | Some y \<Rightarrow> nodes y) r1"
        by (rule b)
      also have "\<dots> = visitList visit (nodes (Container i o1 f s)) (errStr, seen)"
        using None v en by (simp add: visitList_append a)
      finally show ?thesis .
    qed
  qed
qed

lemma seenID_upd: "seenID (seen(i \<mapsto> True)) j = (j = i \<or> seenID seen j)"
  by (simp add: seenID_def)

lemma validateVisit_empty:
  "id_opt (opts n) = [] \<Longrightarrow> validateVisit n seen = (validateSplits n, seen)"
  by (auto simp: validateVisit_def validateIds_def split: option.splits)

lemma validateVisit_seen:
  "id_opt (opts n) \<noteq> [] \<Longrightarrow> seenID seen (id_opt (opts n)) \<Longrightarrow>
   validateVisit n seen = (Some (DuplicateContainerID (id_opt (opts n))), seen)"
  by (auto simp: validateVisit_def validateIds_def split: option.splits)

lemma validateVisit_new:
  "id_opt (opts n) \<noteq> [] \<Longrightarrow> \<not> seenID seen (id_opt (opts n)) \<Longrightarrow>
   validateVisit n seen = (validateSplits n, seen(id_opt (opts n) \<mapsto> True))"
  by (auto simp: validateVisit_def validateIds_def split: option.splits)

lemma validateSplits_not_duplicate: "validateSplits n \<noteq> Some (DuplicateContainerID x)"
  by (simp add: validateSplits_def)

lemma idsOf_Cons:
  "idsOf (n # ns) = (if id_opt (opts n) = [] then idsOf ns else id_opt (opts n) # idsOf ns)"
  by (simp add: idsOf_def)

lemma visitList_validate_ok:
  "fst (visitList validateVisit ns (None, seen)) = None \<longleftrightarrow>
     distinct (idsOf ns) \<and> (\<forall>i \<in> set (idsOf ns). \<not> seenID seen i)
     \<and> (\<forall>n \<in> set ns. validateSplits n = None)"
proof (induction ns arbitrary: seen)
  case Nil
  then show ?case by (simp add: idsOf_def)
next
  case (Cons n ns)
  consider (empty) "id_opt (opts n) = []"
    | (dup) "id_opt (opts n) \<noteq> []" "seenID seen (id_opt (opts n))"
    | (new) "id_opt (opts n) \<noteq> []" "\<not> seenID seen (id_opt (opts n))"
    by blast
  then show ?case
  proof cases
    case empty
    then show ?thesis
      using Cons.IH [of seen]
      by (cases "validateSplits n") (auto simp: validateVisit_empty idsOf_Cons)
  next
    case dup
    then show ?thesis
      by (auto simp: validateVisit_seen idsOf_Cons)
  next
    case new
    have ih: "fst (visitList validateVisit ns (None, seen(id_opt (opts n) \<mapsto> True))) = None \<longleftrightarrow>
       distinct (idsOf ns) \<and> (\<forall>i \<in> set (idsOf ns). \<not> seenID (seen(id_opt (opts n) \<mapsto> True)) i)
       \<and> (\<forall>n \<in> set ns. validateSplits n = None)"
      by (rule Cons.IH)
    show ?thesis
    proof (cases "validateSplits n")
      case None
      with new have "fst (visitList validateVisit (n # ns) (None, seen))
          = fst (visitList validateVisit ns (None, seen(id_opt (opts n) \<mapsto> True)))"
        by (simp add: validateVisit_new)
      with ih new None show ?thesis
        by (auto simp: idsOf_Cons seenID_upd)
    next
      case (Some err)
      with new show ?thesis by (simp add: validateVisit_new)
    qed
  qed
qed

lemma visitList_validate_duplicate:
  "fst (visitList validateVisit ns (None, seen)) = Some (DuplicateContainerID x) \<Longrightarrow>
     x \<noteq> [] \<and> 2 \<le> count_list (map (\<lambda>n. id_opt (opts n)) ns) x + (if seenID seen x then 1 else 0)"
proof (induction ns arbitrary: seen)
  case Nil
  then show ?case by simp
next
  case (Cons n ns)
  consider (empty) "id_opt (opts n) = []"
    | (dup) "id_opt (opts n) \<noteq> []" "seenID seen (id_opt (opts n))"
    | (new) "id_opt (opts n) \<noteq> []" "\<not> seenID seen (id_opt (opts n))"
    by blast
  then show ?case
  proof cases
    case empty
    show ?thesis
    proof (cases "validateSplits n")
      case None
      with empty Cons.prems
      have "fst (visitList validateVisit ns (None, seen)) = Some (DuplicateContainerID x)"
        by (simp add: validateVisit_empty)
      from Cons.IH [OF this] empty show ?thesis by auto
    next
      case (Some err)
      with empty Cons.prems validateSplits_not_duplicate [of n x] show ?thesis
        by (simp add: validateVisit_empty)
    qed
  next
    case dup
    with Cons.prems have "x = id_opt (opts n)"
      by (simp add: validateVisit_seen)
    with dup show ?thesis by simp
  next
    case new
    show ?thesis
    proof (cases "validateSplits n")
      case None
      with new Cons.prems
      have "fst (visitList validateVisit ns (None, seen(id_opt (opts n) \<mapsto> True)))
          = Some (DuplicateContainerID x)"
        by (simp add: validateVisit_new)
      from Cons.IH [OF this]
      have ih: "x \<noteq> []" "2 \<le> count_list (map (\<lambda>n. id_opt (opts n)) ns) x
          + (if seenID (seen(id_opt (opts n) \<mapsto> True)) x then 1 else 0)"
        by blast+
      show ?thesis
      proof (cases "x = id_opt (opts n)")
        case True
        with ih show ?thesis by (simp add: seenID_upd)
      next
        case False
        with ih show ?thesis by (simp add: seenID_upd)
      qed
    next
      case (Some err)
      with new Cons.prems validateSplits_not_duplicate [of n x] show ?thesis
        by (simp add: validateVisit_new)
    qed
  qed
qed

lemma validateOptions_visitList:
  "validateOptions c = fst (visitList validateVisit (nodes c) (None, Map.empty))"
  by (simp add: validateOptions_def preOrder_visitList)

lemma nonEmptyIds_idsOf: "nonEmptyIds c = idsOf (nodes c)"
  by (simp add: nonEmptyIds_def idsOf_def)

lemma same_id_not_distinct:
  assumes "i < j" "j < length ns" "id_opt (opts (ns ! i)) = id_opt (opts (ns ! j))"
    "id_opt (opts (ns ! i)) \<noteq> []"
  shows "\<not> distinct (idsOf ns)"
proof -
  let ?ids = "map (\<lambda>n. id_opt (opts n)) ns"
  have split: "?ids = take j ?ids @ ?ids ! j # drop (Suc j) ?ids"
    by (rule id_take_nth_drop) (simp add: assms(2))
  have mem: "?ids ! j \<in> set (take j ?ids)"
  proof -
    have "take j ?ids ! i = ?ids ! i" using assms(1) by simp
    moreover have "i < length (take j ?ids)" using assms(1,2) by simp
    ultimately have "?ids ! i \<in> set (take j ?ids)" by (metis nth_mem)
    then show ?thesis using assms by simp
  qed
  have ne: "?ids ! j \<noteq> []" using assms by simp
  have "idsOf ns = filter (\<lambda>i. i \<noteq> []) (take j ?ids @ ?ids ! j # drop (Suc j) ?ids)"
    unfolding idsOf_def using split by simp
  then have "idsOf ns = filter (\<lambda>i. i \<noteq> []) (take j ?ids) @ ?ids ! j # filter (\<lambda>i. i \<noteq> []) (drop (Suc j) ?ids)"
    using ne by simp
  moreover have "?ids ! j \<in> set (filter (\<lambda>i. i \<noteq> []) (take j ?ids))"
    using mem ne by simp
  ultimately show ?thesis by simp
qed

text \<open>
  C4. Validation of the whole tree fails whenever two distinct containers of the tree
  (two positions \<open>i < j\<close> of the pre-order list) carry the same identifier and that
  identifier is not empty. It succeeds exactly when the non-empty identifiers of the
  tree are pairwise distinct and no container has conflicting split values: empty
  identifiers do not count, however many containers have one. A duplicate-identifier
  error always names a non-empty identifier that at least two containers carry.
\<close>

theorem validateOptions_duplicate_ids:
  "((\<exists>i j. i < j \<and> j < length (nodes c)
        \<and> id_opt (opts (nodes c ! i)) = id_opt (opts (nodes c ! j))
        \<and> id_opt (opts (nodes c ! i)) \<noteq> []) \<longrightarrow> validateOptions c \<noteq> None)
   \<and> (validateOptions c = None \<longleftrightarrow>
        distinct (nonEmptyIds c) \<and> (\<forall>n \<in> set (nodes c). validateSplits n = None))
   \<and> (validateOptions c = Some (DuplicateContainerID x) \<longrightarrow>
        x \<noteq> [] \<and> 2 \<le> count_list (map (\<lambda>n. id_opt (opts n)) (nodes c)) x)"
proof -
  have ok: "validateOptions c = None \<longleftrightarrow>
        distinct (nonEmptyIds c) \<and> (\<forall>n \<in> set (nodes c). validateSplits n = None)"
    by (simp add: validateOptions_visitList visitList_validate_ok nonEmptyIds_idsOf seenID_def)
  have dup: "validateOptions c \<noteq> None"
    if "\<exists>i j. i < j \<and> j < length (nodes c)
        \<and> id_opt (opts (nodes c ! i)) = id_opt (opts (nodes c ! j))
        \<and> id_opt (opts (nodes c ! i)) \<noteq> []"
  proof -
    from that have "\<not> distinct (nonEmptyIds c)"
      using same_id_not_distinct [of _ _ "nodes c"] by (auto simp: nonEmptyIds_idsOf)
    with ok show ?thesis by simp
  qed
  have err: "x \<noteq> [] \<and> 2 \<le> count_list (map (\<lambda>n. id_opt (opts n)) (nodes c)) x"
    if "validateOptions c = Some (DuplicateContainerID x)"
    using visitList_validate_duplicate [of "nodes c" Map.empty x] that
    by (simp add: validateOptions_visitList seenID_def)
  from ok dup err show ?thesis by blast
qed

theorem validateOptions_duplicate_ids_witness:
  "validateOptions (dupTree ''a'') \<noteq> None \<and> validateOptions (dupTree []) = None"
proof -
  have n: "nodes (dupTree i) = [dupTree i, Container 1 ((opts root0)\<lparr>id_opt := i\<rparr>) None None,
      Container 2 ((opts root0)\<lparr>id_opt := i\<rparr>) None None]" for i
    by (simp add: dupTree_def)
  have "(1::nat) < 2 \<and> 2 < length (nodes (dupTree ''a''))
      \<and> id_opt (opts (nodes (dupTree ''a'') ! 1)) = id_opt (opts (nodes (dupTree ''a'') ! 2))
      \<and> id_opt (opts (nodes (dupTree ''a'') ! 1)) \<noteq> []"
    by (simp add: n)
  then have "\<exists>i j. i < j \<and> j < length (nodes (dupTree ''a''))
      \<and> id_opt (opts (nodes (dupTree ''a'') ! i)) = id_opt (opts (nodes (dupTree ''a'') ! j))
      \<and> id_opt (opts (nodes (dupTree ''a'') ! i)) \<noteq> []"
    by blast
  with validateOptions_duplicate_ids [of "dupTree ''a''"]
  have a: "validateOptions (dupTree ''a'') \<noteq> None" by blast
  have "distinct (nonEmptyIds (dupTree [])) \<and> (\<forall>n \<in> set (nodes (dupTree [])). validateSplits n = None)"
    by (simp add: n nonEmptyIds_def dupTree_def root0_simps validateSplits_def
        DefaultSplitFixed_def DefaultSplitPercent_def)
  with validateOptions_duplicate_ids [of "dupTree []"]
  have b: "validateOptions (dupTree []) = None" by blast
  from a b show ?thesis by simp
qed

section \<open>Both representations on one side, both split sizes on one container\<close>

lemma node_self: "c \<in> set (nodes c)"
  by (cases c) simp

lemma validateSplits_conflict:
  "validateSplits n \<noteq> None \<longleftrightarrow> 0 \<le> splitFixed (opts n) \<and> splitPercent (opts n) \<noteq> 50"
  by (auto simp: validateSplits_def DefaultSplitFixed_def DefaultSplitPercent_def)

lemma validateOptions_split_conflict:
  "n \<in> set (nodes t) \<Longrightarrow> 0 \<le> splitFixed (opts n) \<Longrightarrow> splitPercent (opts n) \<noteq> 50 \<Longrightarrow>
   validateOptions t \<noteq> None"
proof -
  assume a: "n \<in> set (nodes t)" "0 \<le> splitFixed (opts n)" "splitPercent (opts n) \<noteq> 50"
  then have "validateSplits n \<noteq> None"
    by (simp add: validateSplits_def DefaultSplitFixed_def DefaultSplitPercent_def)
  with a(1) have "\<not> (\<forall>n \<in> set (nodes t). validateSplits n = None)" by auto
  then show ?thesis
    by (simp add: validateOptions_visitList visitList_validate_ok)
qed
lemma createFirst_opts: "createFirst l st c = (e, st', c') \<Longrightarrow> opts c' = opts c"
  by (auto split: prod.splits option.splits)

lemma createSecond_opts: "createSecond l st c = (e, st', c') \<Longrightarrow> opts c' = opts c"
  by (auto split: prod.splits option.splits)

lemma split_both_opts:
  assumes "0 < p" "p < 100" "0 \<le> fixed"
  shows "opts (snd (snd (set_option (SplitVertical l r [SplitPercent p, SplitFixed fixed]) st c)))
           = (opts c)\<lparr>split := splitTypeVertical, widget := None, splitPercent := p, splitFixed := fixed\<rparr>"
    and "opts (snd (snd (set_option (SplitHorizontal l r [SplitPercent p, SplitFixed fixed]) st c)))
           = (opts c)\<lparr>split := splitTypeHorizontal, widget := None, splitPercent := p, splitFixed := fixed\<rparr>"
proof -
  let ?ov = "(opts c)\<lparr>split := splitTypeVertical, widget := None, splitPercent := p, splitFixed := fixed\<rparr>"
  let ?oh = "(opts c)\<lparr>split := splitTypeHorizontal, widget := None, splitPercent := p, splitFixed := fixed\<rparr>"
  obtain e1 st1 c1 where f: "createFirst l st (Container (cid c) ?ov (first c) (second c)) = (e1, st1, c1)"
    using prod_cases3 by blast
  obtain e2 st2 c2 where g: "createSecond r st1 c1 = (e2, st2, c2)"
    using prod_cases3 by blast
  from createFirst_opts [OF f] have o1: "opts c1 = ?ov" by simp
  from createSecond_opts [OF g] o1 have o2: "opts c2 = ?ov" by simp
  show "opts (snd (snd (set_option (SplitVertical l r [SplitPercent p, SplitFixed fixed]) st c))) = ?ov"
    using assms f g o1 o2 by (cases e1) (simp_all del: createFirst.simps createSecond.simps)
  obtain e3 st3 c3 where f': "createFirst l st (Container (cid c) ?oh (first c) (second c)) = (e3, st3, c3)"
    using prod_cases3 by blast
  obtain e4 st4 c4 where g': "createSecond r st3 c3 = (e4, st4, c4)"
    using prod_cases3 by blast
  from createFirst_opts [OF f'] have o3: "opts c3 = ?oh" by simp
  from createSecond_opts [OF g'] o3 have o4: "opts c4 = ?oh" by simp
  show "opts (snd (snd (set_option (SplitHorizontal l r [SplitPercent p, SplitFixed fixed]) st c))) = ?oh"
    using assms f' g' o3 o4 by (cases e3) (simp_all del: createFirst.simps createSecond.simps)
qed

text \<open>
  C2, as stated, fails. \<^verbatim>\<open>MarginTopPercent(0)\<close> followed by \<^verbatim>\<open>MarginTop(5)\<close>, and
  \<^verbatim>\<open>PaddingLeft(0)\<close> followed by \<^verbatim>\<open>PaddingLeftPercent(30)\<close>, are accepted: a setter
  rejects the complementary value only when it is greater than zero. A container split
  with \<^verbatim>\<open>SplitPercent(50)\<close> and \<^verbatim>\<open>SplitFixed(3)\<close> passes the validation of the tree:
  \<^verbatim>\<open>validateSplits\<close> compares the percentage with the default 50.
\<close>

theorem complementary_value_counterexample:
  "fst (applyOptions [MarginTopPercent 0, MarginTop 5] store0 root0) = None
   \<and> fst (applyOptions [PaddingLeft 0, PaddingLeftPercent 30] store0 root0) = None
   \<and> fst (applyOptions [SplitVertical [] [] [SplitPercent 50, SplitFixed 3]] store0 root0) = None
   \<and> validateOptions (snd (snd (applyOptions [SplitVertical [] [] [SplitPercent 50, SplitFixed 3]] store0 root0))) = None"
  by (simp add: root0_def store0_def newContainer_def newOptions_def emptyStore_def Let_def
      withMargin_def withPadding_def withOpts_def validateOptions_def validateVisit_def validateIds_def
      validateSplits_def DefaultSplitPercent_def DefaultSplitFixed_def DefaultSplitReversed_def)

text \<open>
  C2, amended. The cell setter of a margin or padding side fails whenever the
  percentage stored for that side is greater than zero, and the percentage setter of a
  side fails whenever the cell value stored for that side is greater than zero.
  Validation of the whole tree fails for every tree that has a container whose fixed
  split value is at least 0 and whose split percentage is not the default 50; a
  container split (vertically or horizontally) with \<^verbatim>\<open>SplitPercent(p)\<close> and
  \<^verbatim>\<open>SplitFixed(fixed)\<close>, \<open>0 < p < 100\<close>, \<open>p \<noteq> 50\<close>, \<open>0 \<le> fixed\<close>, is such a container,
  whatever the options of its children do.
\<close>

theorem complementary_value_rejected:
  "(0 < margin.topPerc (margin (opts c)) \<longrightarrow> fst (set_option (MarginTop cells) st c) \<noteq> None)
   \<and> (0 < margin.rightPerc (margin (opts c)) \<longrightarrow> fst (set_option (MarginRight cells) st c) \<noteq> None)
   \<and> (0 < margin.bottomPerc (margin (opts c)) \<longrightarrow> fst (set_option (MarginBottom cells) st c) \<noteq> None)
   \<and> (0 < margin.leftPerc (margin (opts c)) \<longrightarrow> fst (set_option (MarginLeft cells) st c) \<noteq> None)
   \<and> (0 < margin.topCells (margin (opts c)) \<longrightarrow> fst (set_option (MarginTopPercent perc) st c) \<noteq> None)
   \<and> (0 < margin.rightCells (margin (opts c)) \<longrightarrow> fst (set_option (MarginRightPercent perc) st c) \<noteq> None)
   \<and> (0 < margin.bottomCells (margin (opts c)) \<longrightarrow> fst (set_option (MarginBottomPercent perc) st c) \<noteq> None)
   \<and> (0 < margin.leftCells (margin (opts c)) \<longrightarrow> fst (set_option (MarginLeftPercent perc) st c) \<noteq> None)
   \<and> (0 < padding.topPerc (padding (opts c)) \<longrightarrow> fst (set_option (PaddingTop cells) st c) \<noteq> None)
   \<and> (0 < padding.rightPerc (padding (opts c)) \<longrightarrow> fst (set_option (PaddingRight cells) st c) \<noteq> None)
   \<and> (0 < padding.bottomPerc (padding (opts c)) \<longrightarrow> fst (set_option (PaddingBottom cells) st c) \<noteq> None)
   \<and> (0 < padding.leftPerc (padding (opts c)) \<longrightarrow> fst (set_option (PaddingLeft cells) st c) \<noteq> None)
   \<and> (0 < padding.topCells (padding (opts c)) \<longrightarrow> fst (set_option (PaddingTopPercent perc) st c) \<noteq> None)
   \<and> (0 < padding.rightCells (padding (opts c)) \<longrightarrow> fst (set_option (PaddingRightPercent perc) st c) \<noteq> None)
   \<and> (0 < padding.bottomCells (padding (opts c)) \<longrightarrow> fst (set_option (PaddingBottomPercent perc) st c) \<noteq> None)
   \<and> (0 < padding.leftCells (padding (opts c)) \<longrightarrow> fst (set_option (PaddingLeftPercent perc) st c) \<noteq> None)
   \<and> (n \<in> set (nodes t) \<and> 0 \<le> splitFixed (opts n) \<and> splitPercent (opts n) \<noteq> 50
        \<longrightarrow> validateOptions t \<noteq> None)
   \<and> (0 < p \<and> p < 100 \<and> p \<noteq> 50 \<and> 0 \<le> fixed
        \<longrightarrow> validateOptions (snd (snd (set_option (SplitVertical l r [SplitPercent p, SplitFixed fixed]) st c))) \<noteq> None
          \<and> validateOptions (snd (snd (set_option (SplitHorizontal l r [SplitPercent p, SplitFixed fixed]) st c))) \<noteq> None)"
proof -
  have b: "validateOptions t \<noteq> None"
    if "n \<in> set (nodes t) \<and> 0 \<le> splitFixed (opts n) \<and> splitPercent (opts n) \<noteq> 50"
    using that validateOptions_split_conflict by blast
  have c: "validateOptions (snd (snd (set_option (SplitVertical l r [SplitPercent p, SplitFixed fixed]) st c))) \<noteq> None
     \<and> validateOptions (snd (snd (set_option (SplitHorizontal l r [SplitPercent p, SplitFixed fixed]) st c))) \<noteq> None"
    if h: "0 < p \<and> p < 100 \<and> p \<noteq> 50 \<and> 0 \<le> fixed"
  proof -
    from h have v: "0 < p" "p < 100" "0 \<le> fixed" "p \<noteq> 50" by simp_all
    let ?cv = "snd (snd (set_option (SplitVertical l r [SplitPercent p, SplitFixed fixed]) st c))"
    let ?ch = "snd (snd (set_option (SplitHorizontal l r [SplitPercent p, SplitFixed fixed]) st c))"
    have "0 \<le> splitFixed (opts ?cv)" "splitPercent (opts ?cv) \<noteq> 50"
      using split_both_opts(1) [OF v(1,2,3), of l r st c] v by simp_all
    from validateOptions_split_conflict [OF node_self this]
    have 1: "validateOptions ?cv \<noteq> None" .
    have "0 \<le> splitFixed (opts ?ch)" "splitPercent (opts ?ch) \<noteq> 50"
      using split_both_opts(2) [OF v(1,2,3), of l r st c] v by simp_all
    from validateOptions_split_conflict [OF node_self this]
    have 2: "validateOptions ?ch \<noteq> None" .
    from 1 2 show ?thesis by simp
  qed
  show ?thesis
  proof (intro conjI)
    show "n \<in> set (nodes t) \<and> 0 \<le> splitFixed (opts n) \<and> splitPercent (opts n) \<noteq> 50
        \<longrightarrow> validateOptions t \<noteq> None"
      using b by blast
    show "0 < p \<and> p < 100 \<and> p \<noteq> 50 \<and> 0 \<le> fixed
        \<longrightarrow> validateOptions (snd (snd (set_option (SplitVertical l r [SplitPercent p, SplitFixed fixed]) st c))) \<noteq> None
          \<and> validateOptions (snd (snd (set_option (SplitHorizontal l r [SplitPercent p, SplitFixed fixed]) st c))) \<noteq> None"
      using c by blast
  qed simp_all
qed

theorem complementary_value_rejected_witness:
  "fst (set_option (MarginTop 2) store0 (withMargin (\<lambda>m. m\<lparr>margin.topPerc := 10\<rparr>) root0)) \<noteq> None
   \<and> fst (set_option (PaddingLeftPercent 20) store0 (withPadding (\<lambda>m. m\<lparr>padding.leftCells := 3\<rparr>) root0)) \<noteq> None
   \<and> validateOptions (snd (snd (set_option (SplitVertical [] [] [SplitPercent 30, SplitFixed 3]) store0 root0))) \<noteq> None
   \<and> validateOptions (Container 0 ((opts root0)\<lparr>splitFixed := 0, splitPercent := 20\<rparr>) None None) \<noteq> None"
proof -
  let ?t = "Container 0 ((opts root0)\<lparr>splitFixed := 0, splitPercent := 20\<rparr>) None None"
  let ?cm = "withMargin (\<lambda>m. m\<lparr>margin.topPerc := 10\<rparr>) root0"
  let ?cp = "withPadding (\<lambda>m. m\<lparr>padding.leftCells := 3\<rparr>) root0"
  have ha: "0 < margin.topPerc (margin (opts ?cm))"
    by (simp add: withMargin_def withOpts_def)
  have a: "fst (set_option (MarginTop 2) store0 ?cm) \<noteq> None"
    by (rule complementary_value_rejected [where c = ?cm and cells = 2 and st = store0,
          THEN conjunct1, rule_format, OF ha])
  have hb: "0 < padding.leftCells (padding (opts ?cp))"
    by (simp add: withPadding_def withOpts_def)
  have b: "fst (set_option (PaddingLeftPercent 20) store0 ?cp) \<noteq> None"
    by (rule complementary_value_rejected [where c = ?cp and perc = 20 and st = store0,
          THEN conjunct2, THEN conjunct2, THEN conjunct2, THEN conjunct2, THEN conjunct2, THEN conjunct2, THEN conjunct2, THEN conjunct2, THEN conjunct2, THEN conjunct2, THEN conjunct2, THEN conjunct2, THEN conjunct2, THEN conjunct2, THEN conjunct2, THEN conjunct1, rule_format, OF hb])
  have hc: "(0::int) < 30 \<and> (30::int) < 100 \<and> (30::int) \<noteq> 50 \<and> (0::int) \<le> 3"
    by simp
  have c: "validateOptions (snd (snd (set_option (SplitVertical [] [] [SplitPercent 30, SplitFixed 3]) store0 root0))) \<noteq> None"
    by (rule complementary_value_rejected [where p = 30 and fixed = 3 and l = "[]" and r = "[]"
          and st = store0 and c = root0,
          THEN conjunct2, THEN conjunct2, THEN conjunct2, THEN conjunct2, THEN conjunct2, THEN conjunct2, THEN conjunct2, THEN conjunct2, THEN conjunct2, THEN conjunct2, THEN conjunct2, THEN conjunct2, THEN conjunct2, THEN conjunct2, THEN conjunct2, THEN conjunct2, THEN conjunct2, THEN mp, OF hc, THEN conjunct1])
  have hd: "?t \<in> set (nodes ?t) \<and> 0 \<le> splitFixed (opts ?t) \<and> splitPercent (opts ?t) \<noteq> 50"
    by simp
  have d: "validateOptions ?t \<noteq> None"
    by (rule complementary_value_rejected [where n = ?t and t = ?t,
          THEN conjunct2, THEN conjunct2, THEN conjunct2, THEN conjunct2, THEN conjunct2, THEN conjunct2, THEN conjunct2, THEN conjunct2, THEN conjunct2, THEN conjunct2, THEN conjunct2, THEN conjunct2, THEN conjunct2, THEN conjunct2, THEN conjunct2, THEN conjunct2, THEN conjunct1, THEN mp, OF hd])
  from a b c d show ?thesis by (intro conjI)
qed

section \<open>Margin and padding applied to an area\<close>

lemma root0_padding:
  "padding (opts root0) = \<lparr>padding.topCells = 0, topPerc = 0, rightCells = 0, rightPerc = 0,
                             bottomCells = 0, bottomPerc = 0, leftCells = 0, leftPerc = 0\<rparr>"
  by (simp add: root0_def newContainer_def newOptions_def emptyStore_def)

lemma margin_apply_cells_first:
  "margin.topCells p \<noteq> 0 \<or> margin.rightCells p \<noteq> 0 \<or> margin.bottomCells p \<noteq> 0
      \<or> margin.leftCells p \<noteq> 0 \<Longrightarrow>
   margin_apply shrink shrinkPercent p ar
     = shrink ar (margin.topCells p) (margin.rightCells p) (margin.bottomCells p) (margin.leftCells p)"
  by (simp add: margin_apply_def)

lemma padding_apply_cells_first:
  "padding.topCells p \<noteq> 0 \<or> padding.rightCells p \<noteq> 0 \<or> padding.bottomCells p \<noteq> 0
      \<or> padding.leftCells p \<noteq> 0 \<Longrightarrow>
   padding_apply shrink shrinkPercent p ar
     = shrink ar (padding.topCells p) (padding.rightCells p) (padding.bottomCells p) (padding.leftCells p)"
  by (simp add: padding_apply_def)

text \<open>
  C1 does not hold of the code. \<^verbatim>\<open>MarginTop(1)\<close> and \<^verbatim>\<open>MarginLeftPercent(50)\<close> are both
  accepted on a fresh container (they are on different sides), and the margin then
  holds one cell at the top and 50 percent at the left. \<^verbatim>\<open>margin.apply\<close> takes the
  first case of its \<^verbatim>\<open>switch\<close> and returns \<^verbatim>\<open>area.Shrink(ar, 1, 0, 0, 0)\<close>, whatever
  the two helpers of the \<^verbatim>\<open>area\<close> package compute: the percentage of the left side is
  passed to neither. The same holds of \<^verbatim>\<open>padding.apply\<close>.
\<close>

theorem apply_drops_percentages:
  "fst (applyOptions [MarginTop 1, MarginLeftPercent 50] store0 root0) = None
   \<and> margin (opts (snd (snd (applyOptions [MarginTop 1, MarginLeftPercent 50] store0 root0))))
       = \<lparr>margin.topCells = 1, topPerc = 0, rightCells = 0, rightPerc = 0,
          bottomCells = 0, bottomPerc = 0, leftCells = 0, leftPerc = 50\<rparr>
   \<and> margin_apply shrink shrinkPercent
        (margin (opts (snd (snd (applyOptions [MarginTop 1, MarginLeftPercent 50] store0 root0))))) ar
       = shrink ar 1 0 0 0
   \<and> fst (applyOptions [PaddingTop 1, PaddingLeftPercent 50] store0 root0) = None
   \<and> padding_apply shrink shrinkPercent
        (padding (opts (snd (snd (applyOptions [PaddingTop 1, PaddingLeftPercent 50] store0 root0))))) ar
       = shrink ar 1 0 0 0"
proof -
  have m: "applyOptions [MarginTop 1, MarginLeftPercent 50] store0 root0
      = (None, store0, withMargin (\<lambda>m. m\<lparr>margin.leftPerc := 50\<rparr>)
                         (withMargin (\<lambda>m. m\<lparr>margin.topCells := 1\<rparr>) root0))"
    by (simp add: root0_simps withMargin_def withOpts_def)
  have p: "applyOptions [PaddingTop 1, PaddingLeftPercent 50] store0 root0
      = (None, store0, withPadding (\<lambda>m. m\<lparr>padding.leftPerc := 50\<rparr>)
                         (withPadding (\<lambda>m. m\<lparr>padding.topCells := 1\<rparr>) root0))"
    by (simp add: root0_padding withPadding_def withOpts_def)
  have m1: "margin (opts (snd (snd (applyOptions [MarginTop 1, MarginLeftPercent 50] store0 root0))))
       = \<lparr>margin.topCells = 1, topPerc = 0, rightCells = 0, rightPerc = 0,
          bottomCells = 0, bottomPerc = 0, leftCells = 0, leftPerc = 50\<rparr>"
    by (simp add: m root0_simps withMargin_def withOpts_def)
  have p1: "padding (opts (snd (snd (applyOptions [PaddingTop 1, PaddingLeftPercent 50] store0 root0))))
       = \<lparr>padding.topCells = 1, topPerc = 0, rightCells = 0, rightPerc = 0,
          bottomCells = 0, bottomPerc = 0, leftCells = 0, leftPerc = 50\<rparr>"
    by (simp add: p root0_padding withPadding_def withOpts_def)
  have m2: "margin_apply shrink shrinkPercent
        (margin (opts (snd (snd (applyOptions [MarginTop 1, MarginLeftPercent 50] store0 root0))))) ar
       = shrink ar 1 0 0 0"
    by (simp only: m1) (simp add: margin_apply_def)
  have p2: "padding_apply shrink shrinkPercent
        (padding (opts (snd (snd (applyOptions [PaddingTop 1, PaddingLeftPercent 50] store0 root0))))) ar
       = shrink ar 1 0 0 0"
    by (simp only: p1) (simp add: padding_apply_def)
  have e: "fst (applyOptions [MarginTop 1, MarginLeftPercent 50] store0 root0) = None"
    "fst (applyOptions [PaddingTop 1, PaddingLeftPercent 50] store0 root0) = None"
    by (simp_all only: m p fst_conv)
  from e m1 m2 p2 show ?thesis by simp
qed

theorem apply_drops_percentages_witness:
  "margin_apply Shrink ShrinkPercent
        (margin (opts (snd (snd (applyOptions [MarginTop 1, MarginLeftPercent 50] store0 root0)))))
        \<lparr>minX = 0, minY = 0, maxX = 10, maxY = 10\<rparr>
     = Inr \<lparr>minX = 0, minY = 1, maxX = 10, maxY = 10\<rparr>
   \<and> margin_apply Shrink ShrinkPercent
        (margin (opts (snd (snd (applyOptions [MarginLeftPercent 50] store0 root0)))))
        \<lparr>minX = 0, minY = 0, maxX = 10, maxY = 10\<rparr>
     = Inr \<lparr>minX = 5, minY = 0, maxX = 10, maxY = 10\<rparr>"
proof -
  have a: "margin_apply Shrink ShrinkPercent
        (margin (opts (snd (snd (applyOptions [MarginTop 1, MarginLeftPercent 50] store0 root0)))))
        \<lparr>minX = 0, minY = 0, maxX = 10, maxY = 10\<rparr>
     = Inr \<lparr>minX = 0, minY = 1, maxX = 10, maxY = 10\<rparr>"
  proof -
    have "Shrink \<lparr>minX = 0, minY = 0, maxX = 10, maxY = 10\<rparr> 1 0 0 0
        = Inr \<lparr>minX = 0, minY = 1, maxX = 10, maxY = 10\<rparr>"
      by (simp add: Shrink_def)
    with apply_drops_percentages [of Shrink ShrinkPercent "\<lparr>minX = 0, minY = 0, maxX = 10, maxY = 10\<rparr>",
        THEN conjunct2, THEN conjunct2, THEN conjunct1]
    show ?thesis by (rule trans)
  qed
  have b: "margin_apply Shrink ShrinkPercent
        (margin (opts (snd (snd (applyOptions [MarginLeftPercent 50] store0 root0)))))
        \<lparr>minX = 0, minY = 0, maxX = 10, maxY = 10\<rparr>
     = Inr \<lparr>minX = 5, minY = 0, maxX = 10, maxY = 10\<rparr>"
    by (simp add: margin_apply_def withMargin_def withOpts_def root0_simps Shrink_def ShrinkPercent_def)
  from a b show ?thesis by (rule conjI)
qed

section \<open>A widget excludes children\<close>

lemma treeOK_Container:
  "treeOK (Container i o1 f s) \<longleftrightarrow>
     (widget o1 = None \<or> (f = None \<and> s = None))
     \<and> (case f of None \<Rightarrow> True | Some x \<Rightarrow> treeOK x)
     \<and> (case s of None \<Rightarrow> True | Some y \<Rightarrow> treeOK y)"
  by (auto simp: treeOK_def widgetExcludesChildren_def split: option.splits)

lemma treeOK_expand:
  "treeOK c \<longleftrightarrow>
     (widget (opts c) = None \<or> (first c = None \<and> second c = None))
     \<and> (case first c of None \<Rightarrow> True | Some x \<Rightarrow> treeOK x)
     \<and> (case second c of None \<Rightarrow> True | Some y \<Rightarrow> treeOK y)"
  by (cases c) (simp add: treeOK_Container)

lemma treeOK_withOpts:
  "widget (f (opts c)) = widget (opts c) \<Longrightarrow> treeOK (withOpts f c) = treeOK c"
  by (cases c) (simp add: withOpts_def treeOK_Container)

lemma treeOK_newContainer: "treeOK (fst (newContainer parent st))"
  by (simp add: newContainer_def treeOK_Container split: prod.splits)

lemma setSplit_widget: "widget (snd (setSplit so o1)) = widget o1"
  by (cases so) auto

lemma setSplits_widget: "widget (snd (setSplits sopts o1)) = widget o1"
proof (induction sopts arbitrary: o1)
  case Nil
  then show ?case by simp
next
  case (Cons so rest)
  obtain e o2 where s: "setSplit so o1 = (e, o2)" by force
  with setSplit_widget [of so o1] have w: "widget o2 = widget o1" by simp
  show ?case
  proof (cases e)
    case None
    with s Cons.IH [of o2] w show ?thesis by simp
  next
    case (Some err)
    with s w show ?thesis by simp
  qed
qed

lemma treeOK_preserved:
  "treeOK c \<Longrightarrow> treeOK (snd (snd (set_option opt st c)))"
  "treeOK c \<Longrightarrow> treeOK (snd (snd (applyOptions optList st c)))"
  "treeOK c \<Longrightarrow> widget (opts c) = None \<Longrightarrow> treeOK (snd (snd (createFirst childOpts st c)))"
  "treeOK c \<Longrightarrow> widget (opts c) = None \<Longrightarrow> treeOK (snd (snd (createSecond childOpts st c)))"
proof (induction opt st c and optList st c and childOpts st c and childOpts st c
    rule: set_option_applyOptions_createFirst_createSecond.induct)
  case (1 st c)
  then show ?case by simp
next
  case (2 opt rest st c)
  obtain e st' c' where s: "set_option opt st c = (e, st', c')" using prod_cases3 by blast
  from "2.IH"(1) [OF "2.prems"] s have ok: "treeOK c'" by simp
  show ?case
  proof (cases e)
    case None
    from "2.IH"(2) [OF s [symmetric] None refl ok] s None show ?thesis by simp
  next
    case (Some err)
    with s ok show ?thesis by simp
  qed
next
  case (3 childOpts st c)
  obtain child st1 where n: "newContainer (Some (opts c)) st = (child, st1)" by force
  from treeOK_newContainer [of "Some (opts c)" st] n have "treeOK child" by simp
  from "3.IH" [OF n [symmetric] this] have ok: "treeOK (snd (snd (applyOptions childOpts st1 child)))" .
  obtain e st2 child' where a: "applyOptions childOpts st1 child = (e, st2, child')"
    using prod_cases3 by blast
  with ok have ok': "treeOK child'" by simp
  show ?case
  proof (cases e)
    case None
    with n a have "snd (snd (createFirst childOpts st c)) = Container (cid c) (opts c) (Some child') (second c)"
      by simp
    moreover have "treeOK (Container (cid c) (opts c) (Some child') (second c))"
      using "3.prems" ok' treeOK_expand [of c] by (simp add: treeOK_Container)
    ultimately show ?thesis by simp
  next
    case (Some err)
    with n a "3.prems" show ?thesis by simp
  qed
next
  case (4 childOpts st c)
  obtain child st1 where n: "newContainer (Some (opts c)) st = (child, st1)" by force
  from treeOK_newContainer [of "Some (opts c)" st] n have "treeOK child" by simp
  from "4.IH" [OF n [symmetric] this] have ok: "treeOK (snd (snd (applyOptions childOpts st1 child)))" .
  obtain e st2 child' where a: "applyOptions childOpts st1 child = (e, st2, child')"
    using prod_cases3 by blast
  with ok have ok': "treeOK child'" by simp
  show ?case
  proof (cases e)
    case None
    with n a have "snd (snd (createSecond childOpts st c)) = Container (cid c) (opts c) (first c) (Some child')"
      by simp
    moreover have "treeOK (Container (cid c) (opts c) (first c) (Some child'))"
      using "4.prems" ok' treeOK_expand [of c] by (simp add: treeOK_Container)
    ultimately show ?thesis by simp
  next
    case (Some err)
    with n a "4.prems" show ?thesis by simp
  qed
next
  case (5 l r sopts st c)
  let ?o = "(opts c)\<lparr>split := splitTypeVertical, widget := None\<rparr>"
  obtain e o' where s: "setSplits sopts ?o = (e, o')" by force
  from setSplits_widget [of sopts ?o] s have w: "widget o' = None" by simp
  let ?c0 = "Container (cid c) o' (first c) (second c)"
  have ok0: "treeOK ?c0" using "5.prems" w treeOK_expand [of c] by (simp add: treeOK_Container)
  show ?case
  proof (cases e)
    case (Some err)
    with s ok0 show ?thesis by (simp del: createFirst.simps createSecond.simps)
  next
    case None
    obtain e1 st1 c1 where f: "createFirst l st ?c0 = (e1, st1, c1)" using prod_cases3 by blast
    from "5.IH"(1) [OF s [symmetric] None ok0] w f have ok1: "treeOK c1" by simp
    from createFirst_opts [OF f] w have w1: "widget (opts c1) = None" by simp
    show ?thesis
    proof (cases e1)
      case (Some err)
      with s None f ok1 show ?thesis by (simp del: createFirst.simps createSecond.simps)
    next
      case e1n: None
      from "5.IH"(2) [OF s [symmetric] None f [symmetric] e1n refl ok1 w1]
      show ?thesis using s None f e1n by (simp del: createFirst.simps createSecond.simps)
    qed
  qed
next
  case (6 t b sopts st c)
  let ?o = "(opts c)\<lparr>split := splitTypeHorizontal, widget := None\<rparr>"
  obtain e o' where s: "setSplits sopts ?o = (e, o')" by force
  from setSplits_widget [of sopts ?o] s have w: "widget o' = None" by simp
  let ?c0 = "Container (cid c) o' (first c) (second c)"
  have ok0: "treeOK ?c0" using "6.prems" w treeOK_expand [of c] by (simp add: treeOK_Container)
  show ?case
  proof (cases e)
    case (Some err)
    with s ok0 show ?thesis by (simp del: createFirst.simps createSecond.simps)
  next
    case None
    obtain e1 st1 c1 where f: "createFirst t st ?c0 = (e1, st1, c1)" using prod_cases3 by blast
    from "6.IH"(1) [OF s [symmetric] None ok0] w f have ok1: "treeOK c1" by simp
    from createFirst_opts [OF f] w have w1: "widget (opts c1) = None" by simp
    show ?thesis
    proof (cases e1)
      case (Some err)
      with s None f ok1 show ?thesis by (simp del: createFirst.simps createSecond.simps)
    next
      case e1n: None
      from "6.IH"(2) [OF s [symmetric] None f [symmetric] e1n refl ok1 w1]
      show ?thesis using s None f e1n by (simp del: createFirst.simps createSecond.simps)
    qed
  qed
qed (auto simp: treeOK_withOpts withMargin_def withPadding_def withInherited_def treeOK_Container
      split: prod.splits)

lemma split_result_opts:
  "opts (snd (snd (set_option (SplitVertical l r sopts) st c)))
     = snd (setSplits sopts ((opts c)\<lparr>split := splitTypeVertical, widget := None\<rparr>))"
  "opts (snd (snd (set_option (SplitHorizontal l r sopts) st c)))
     = snd (setSplits sopts ((opts c)\<lparr>split := splitTypeHorizontal, widget := None\<rparr>))"
proof -
  have gen: "opts (snd (snd (case setSplits sopts o0 of
        (Some err, opts') \<Rightarrow> (Some err, st, Container (cid c) opts' (first c) (second c))
      | (None, opts') \<Rightarrow>
          (case createFirst l st (Container (cid c) opts' (first c) (second c)) of
             (Some err, st1, c1) \<Rightarrow> (Some err, st1, c1)
           | (None, st1, c1) \<Rightarrow> createSecond r st1 c1))))
     = snd (setSplits sopts o0)" for o0
  proof -
    obtain e o' where s: "setSplits sopts o0 = (e, o')" by force
    obtain e1 st1 c1 where f: "createFirst l st (Container (cid c) o' (first c) (second c)) = (e1, st1, c1)"
      using prod_cases3 by blast
    obtain e2 st2 c2 where g: "createSecond r st1 c1 = (e2, st2, c2)"
      using prod_cases3 by blast
    from createFirst_opts [OF f] have o1: "opts c1 = o'" by simp
    from createSecond_opts [OF g] o1 have o2: "opts c2 = o'" by simp
    show ?thesis
      using s f g o1 o2 by (cases e; cases e1) (simp_all del: createFirst.simps createSecond.simps)
  qed
  show "opts (snd (snd (set_option (SplitVertical l r sopts) st c)))
     = snd (setSplits sopts ((opts c)\<lparr>split := splitTypeVertical, widget := None\<rparr>))"
    using gen [of "(opts c)\<lparr>split := splitTypeVertical, widget := None\<rparr>"]
    by (simp del: createFirst.simps createSecond.simps)
  show "opts (snd (snd (set_option (SplitHorizontal l r sopts) st c)))
     = snd (setSplits sopts ((opts c)\<lparr>split := splitTypeHorizontal, widget := None\<rparr>))"
    using gen [of "(opts c)\<lparr>split := splitTypeHorizontal, widget := None\<rparr>"]
    by (simp del: createFirst.simps createSecond.simps)
qed

lemma treeOK_nodes:
  "treeOK c \<Longrightarrow> n \<in> set (nodes c) \<Longrightarrow> widget (opts n) = None \<or> (first n = None \<and> second n = None)"
  by (simp add: treeOK_def widgetExcludesChildren_def list_all_iff)

text \<open>
  C3. No container ever holds a widget together with a child. When every container of
  a tree satisfies this, it still holds of every container of the tree after any
  option has been applied, whether the option succeeds or fails, and after any list of
  options; a freshly created container satisfies it. So each container is in exactly
  one of three states: it has two children, it has a widget, or neither. A vertical or
  horizontal split leaves the container without a widget (the widget is removed before
  the split options and the children are handled), and \<^verbatim>\<open>PlaceWidget(w)\<close> leaves it
  with the widget \<open>w\<close> and without children. (A split whose second child fails to be
  created can leave a container with one child only; it has no widget and counts as
  "neither".)
\<close>

theorem widget_excludes_children:
  assumes "treeOK c" and "set_option opt st c = (e, st', c')"
  shows "treeOK c'
     \<and> (\<forall>n \<in> set (nodes c'). \<not> (hasWidget n \<and> (first n \<noteq> None \<or> second n \<noteq> None)))
     \<and> (\<forall>n \<in> set (nodes c').
           (hasTwoChildren n \<and> \<not> hasWidget n \<and> \<not> hasNeither n)
         \<or> (\<not> hasTwoChildren n \<and> hasWidget n \<and> \<not> hasNeither n)
         \<or> (\<not> hasTwoChildren n \<and> \<not> hasWidget n \<and> hasNeither n))
     \<and> (opt = SplitVertical l r sopts \<or> opt = SplitHorizontal l r sopts \<longrightarrow> widget (opts c') = None)
     \<and> (opt = PlaceWidget w \<longrightarrow> first c' = None \<and> second c' = None \<and> widget (opts c') = w)
     \<and> treeOK (snd (snd (applyOptions optList st c)))
     \<and> treeOK (fst (newContainer parent st))"
proof -
  from treeOK_preserved(1) [OF assms(1), of opt st] assms(2) have ok: "treeOK c'" by simp
  have a: "\<forall>n \<in> set (nodes c'). \<not> (hasWidget n \<and> (first n \<noteq> None \<or> second n \<noteq> None))"
  proof
    fix n assume "n \<in> set (nodes c')"
    from treeOK_nodes [OF ok this]
    show "\<not> (hasWidget n \<and> (first n \<noteq> None \<or> second n \<noteq> None))"
      by (auto simp: hasWidget_def)
  qed
  have b: "\<forall>n \<in> set (nodes c').
           (hasTwoChildren n \<and> \<not> hasWidget n \<and> \<not> hasNeither n)
         \<or> (\<not> hasTwoChildren n \<and> hasWidget n \<and> \<not> hasNeither n)
         \<or> (\<not> hasTwoChildren n \<and> \<not> hasWidget n \<and> hasNeither n)"
  proof
    fix n assume "n \<in> set (nodes c')"
    from treeOK_nodes [OF ok this]
    show "(hasTwoChildren n \<and> \<not> hasWidget n \<and> \<not> hasNeither n)
         \<or> (\<not> hasTwoChildren n \<and> hasWidget n \<and> \<not> hasNeither n)
         \<or> (\<not> hasTwoChildren n \<and> \<not> hasWidget n \<and> hasNeither n)"
      by (auto simp: hasWidget_def hasTwoChildren_def hasNeither_def)
  qed
  have c: "opt = SplitVertical l r sopts \<or> opt = SplitHorizontal l r sopts \<longrightarrow> widget (opts c') = None"
  proof
    assume "opt = SplitVertical l r sopts \<or> opt = SplitHorizontal l r sopts"
    then show "widget (opts c') = None"
    proof
      assume "opt = SplitVertical l r sopts"
      with split_result_opts(1) [of l r sopts st c] assms(2)
      have "opts c' = snd (setSplits sopts ((opts c)\<lparr>split := splitTypeVertical, widget := None\<rparr>))"
        by simp
      then show ?thesis by (simp add: setSplits_widget)
    next
      assume "opt = SplitHorizontal l r sopts"
      with split_result_opts(2) [of l r sopts st c] assms(2)
      have "opts c' = snd (setSplits sopts ((opts c)\<lparr>split := splitTypeHorizontal, widget := None\<rparr>))"
        by simp
      then show ?thesis by (simp add: setSplits_widget)
    qed
  qed
  have d: "opt = PlaceWidget w \<longrightarrow> first c' = None \<and> second c' = None \<and> widget (opts c') = w"
    using assms(2) by auto
  have e: "treeOK (snd (snd (applyOptions optList st c)))"
    by (rule treeOK_preserved(2) [OF assms(1)])
  have f: "treeOK (fst (newContainer parent st))"
    by (rule treeOK_newContainer)
  from ok a b c d e f show ?thesis by (intro conjI)
qed

theorem widget_excludes_children_witness:
  "treeOK (Container 0 ((opts root0)\<lparr>widget := Some (Widget 1)\<rparr>) None None)
   \<and> treeOK (snd (snd (set_option (SplitVertical [PlaceWidget (Some (Widget 2))] [] [])
         store0 (Container 0 ((opts root0)\<lparr>widget := Some (Widget 1)\<rparr>) None None))))
   \<and> widget (opts (snd (snd (set_option (SplitVertical [PlaceWidget (Some (Widget 2))] [] [])
         store0 (Container 0 ((opts root0)\<lparr>widget := Some (Widget 1)\<rparr>) None None))))) = None"
proof -
  let ?c = "Container 0 ((opts root0)\<lparr>widget := Some (Widget 1)\<rparr>) None None"
  let ?opt = "SplitVertical [PlaceWidget (Some (Widget 2))] [] []"
  have ok: "treeOK ?c" by (simp add: treeOK_Container)
  obtain e st' c' where s: "set_option ?opt store0 ?c = (e, st', c')" using prod_cases3 by blast
  from widget_excludes_children [OF ok s, of "[PlaceWidget (Some (Widget 2))]" "[]" "[]"]
  have "treeOK c'" "widget (opts c') = None" by simp_all
  with ok s show ?thesis by simp
qed

section \<open>Inherited options are copied, global options are shared\<close>

lemma sharesGlobal_Container:
  "sharesGlobal g (Container i o1 f s) \<longleftrightarrow>
     global o1 = g
     \<and> (case f of None \<Rightarrow> True | Some x \<Rightarrow> sharesGlobal g x)
     \<and> (case s of None \<Rightarrow> True | Some y \<Rightarrow> sharesGlobal g y)"
  by (auto simp: sharesGlobal_def split: option.splits)

lemma sharesGlobal_expand:
  "sharesGlobal g c \<longleftrightarrow>
     global (opts c) = g
     \<and> (case first c of None \<Rightarrow> True | Some x \<Rightarrow> sharesGlobal g x)
     \<and> (case second c of None \<Rightarrow> True | Some y \<Rightarrow> sharesGlobal g y)"
  by (cases c) (simp add: sharesGlobal_Container)

lemma sharesGlobal_root: "sharesGlobal g c \<Longrightarrow> global (opts c) = g"
  by (cases c) (simp add: sharesGlobal_Container)

lemma sharesGlobal_withOpts:
  "global (f (opts c)) = global (opts c) \<Longrightarrow> sharesGlobal g (withOpts f c) = sharesGlobal g c"
  by (cases c) (simp add: withOpts_def sharesGlobal_Container)

lemma sharesGlobal_newContainer:
  "sharesGlobal (global p) (fst (newContainer (Some p) st))"
  by (simp add: newContainer_def newOptions_def sharesGlobal_Container Let_def)

lemma setSplit_global: "global (snd (setSplit so o1)) = global o1"
  by (cases so) auto

lemma setSplit_inherited: "inherited (snd (setSplit so o1)) = inherited o1"
  by (cases so) auto

lemma setSplits_global: "global (snd (setSplits sopts o1)) = global o1"
proof (induction sopts arbitrary: o1)
  case Nil
  then show ?case by simp
next
  case (Cons so rest)
  obtain e o2 where s: "setSplit so o1 = (e, o2)" by force
  with setSplit_global [of so o1] have w: "global o2 = global o1" by simp
  show ?case
  proof (cases e)
    case None
    with s Cons.IH [of o2] w show ?thesis by simp
  next
    case (Some err)
    with s w show ?thesis by simp
  qed
qed

lemma setSplits_inherited: "inherited (snd (setSplits sopts o1)) = inherited o1"
proof (induction sopts arbitrary: o1)
  case Nil
  then show ?case by simp
next
  case (Cons so rest)
  obtain e o2 where s: "setSplit so o1 = (e, o2)" by force
  with setSplit_inherited [of so o1] have w: "inherited o2 = inherited o1" by simp
  show ?case
  proof (cases e)
    case None
    with s Cons.IH [of o2] w show ?thesis by simp
  next
    case (Some err)
    with s w show ?thesis by simp
  qed
qed

lemma sharesGlobal_preserved:
  "sharesGlobal g c \<Longrightarrow> sharesGlobal g (snd (snd (set_option opt st c)))"
  "sharesGlobal g c \<Longrightarrow> sharesGlobal g (snd (snd (applyOptions optList st c)))"
  "sharesGlobal g c \<Longrightarrow> sharesGlobal g (snd (snd (createFirst childOpts st c)))"
  "sharesGlobal g c \<Longrightarrow> sharesGlobal g (snd (snd (createSecond childOpts st c)))"
proof (induction opt st c and optList st c and childOpts st c and childOpts st c
    rule: set_option_applyOptions_createFirst_createSecond.induct)
  case (1 st c)
  then show ?case by simp
next
  case (2 opt rest st c)
  obtain e st' c' where s: "set_option opt st c = (e, st', c')" using prod_cases3 by blast
  from "2.IH"(1) [OF "2.prems"] s have ok: "sharesGlobal g c'" by simp
  show ?case
  proof (cases e)
    case None
    from "2.IH"(2) [OF s [symmetric] None refl ok] s None show ?thesis by simp
  next
    case (Some err)
    with s ok show ?thesis by simp
  qed
next
  case (3 childOpts st c)
  obtain child st1 where n: "newContainer (Some (opts c)) st = (child, st1)" by force
  from "3.prems" have gc: "global (opts c) = g" by (simp add: sharesGlobal_expand [of g c])
  from sharesGlobal_newContainer [of "opts c" st] n gc have "sharesGlobal g child" by simp
  from "3.IH" [OF n [symmetric] this] have ok: "sharesGlobal g (snd (snd (applyOptions childOpts st1 child)))" .
  obtain e st2 child' where a: "applyOptions childOpts st1 child = (e, st2, child')"
    using prod_cases3 by blast
  with ok have ok': "sharesGlobal g child'" by simp
  show ?case
  proof (cases e)
    case None
    with n a have "snd (snd (createFirst childOpts st c)) = Container (cid c) (opts c) (Some child') (second c)"
      by simp
    moreover have "sharesGlobal g (Container (cid c) (opts c) (Some child') (second c))"
      using "3.prems" ok' sharesGlobal_expand [of g c] by (simp add: sharesGlobal_Container)
    ultimately show ?thesis by simp
  next
    case (Some err)
    with n a "3.prems" show ?thesis by simp
  qed
next
  case (4 childOpts st c)
  obtain child st1 where n: "newContainer (Some (opts c)) st = (child, st1)" by force
  from "4.prems" have gc: "global (opts c) = g" by (simp add: sharesGlobal_expand [of g c])
  from sharesGlobal_newContainer [of "opts c" st] n gc have "sharesGlobal g child" by simp
  from "4.IH" [OF n [symmetric] this] have ok: "sharesGlobal g (snd (snd (applyOptions childOpts st1 child)))" .
  obtain e st2 child' where a: "applyOptions childOpts st1 child = (e, st2, child')"
    using prod_cases3 by blast
  with ok have ok': "sharesGlobal g child'" by simp
  show ?case
  proof (cases e)
    case None
    with n a have "snd (snd (createSecond childOpts st c)) = Container (cid c) (opts c) (first c) (Some child')"
      by simp
    moreover have "sharesGlobal g (Container (cid c) (opts c) (first c) (Some child'))"
      using "4.prems" ok' sharesGlobal_expand [of g c] by (simp add: sharesGlobal_Container)
    ultimately show ?thesis by simp
  next
    case (Some err)
    with n a "4.prems" show ?thesis by simp
  qed
next
  case (5 l r sopts st c)
  let ?o = "(opts c)\<lparr>split := splitTypeVertical, widget := None\<rparr>"
  obtain e o' where s: "setSplits sopts ?o = (e, o')" by force
  from setSplits_global [of sopts ?o] s "5.prems" have w: "global o' = g"
    by (simp add: sharesGlobal_expand [of g c])
  let ?c0 = "Container (cid c) o' (first c) (second c)"
  have ok0: "sharesGlobal g ?c0"
    using "5.prems" w sharesGlobal_expand [of g c] by (simp add: sharesGlobal_Container)
  show ?case
  proof (cases e)
    case (Some err)
    with s ok0 show ?thesis by (simp del: createFirst.simps createSecond.simps)
  next
    case None
    obtain e1 st1 c1 where f: "createFirst l st ?c0 = (e1, st1, c1)" using prod_cases3 by blast
    from "5.IH"(1) [OF s [symmetric] None ok0] f have ok1: "sharesGlobal g c1" by simp
    show ?thesis
    proof (cases e1)
      case (Some err)
      with s None f ok1 show ?thesis by (simp del: createFirst.simps createSecond.simps)
    next
      case e1n: None
      from "5.IH"(2) [OF s [symmetric] None f [symmetric] e1n refl ok1]
      show ?thesis using s None f e1n by (simp del: createFirst.simps createSecond.simps)
    qed
  qed
next
  case (6 t b sopts st c)
  let ?o = "(opts c)\<lparr>split := splitTypeHorizontal, widget := None\<rparr>"
  obtain e o' where s: "setSplits sopts ?o = (e, o')" by force
  from setSplits_global [of sopts ?o] s "6.prems" have w: "global o' = g"
    by (simp add: sharesGlobal_expand [of g c])
  let ?c0 = "Container (cid c) o' (first c) (second c)"
  have ok0: "sharesGlobal g ?c0"
    using "6.prems" w sharesGlobal_expand [of g c] by (simp add: sharesGlobal_Container)
  show ?case
  proof (cases e)
    case (Some err)
    with s ok0 show ?thesis by (simp del: createFirst.simps createSecond.simps)
  next
    case None
    obtain e1 st1 c1 where f: "createFirst t st ?c0 = (e1, st1, c1)" using prod_cases3 by blast
    from "6.IH"(1) [OF s [symmetric] None ok0] f have ok1: "sharesGlobal g c1" by simp
    show ?thesis
    proof (cases e1)
      case (Some err)
      with s None f ok1 show ?thesis by (simp del: createFirst.simps createSecond.simps)
    next
      case e1n: None
      from "6.IH"(2) [OF s [symmetric] None f [symmetric] e1n refl ok1]
      show ?thesis using s None f e1n by (simp del: createFirst.simps createSecond.simps)
    qed
  qed
qed (auto simp: sharesGlobal_withOpts withMargin_def withPadding_def withInherited_def sharesGlobal_Container
      dest: sharesGlobal_root split: prod.splits)

lemma sharesGlobal_nodes: "sharesGlobal g t \<Longrightarrow> n \<in> set (nodes t) \<Longrightarrow> global (opts n) = g"
  by (simp add: sharesGlobal_def list_all_iff)

lemma globalOf_withGlobal:
  "global (opts m) = global (opts n) \<Longrightarrow> globalOf (withGlobal f st n) m = f (globalOf st n)"
  by (simp add: globalOf_def withGlobal_def)

lemma newOptions_parent:
  "newOptions (Some p) st = (o1, st1) \<Longrightarrow> inherited o1 = inherited p \<and> global o1 = global p"
  by (auto simp: newOptions_def Let_def)

lemma createFirst_empty:
  "\<exists>ch st1. createFirst [] st c = (None, st1, Container (cid c) (opts c) (Some ch) (second c))
      \<and> inherited (opts ch) = inherited (opts c) \<and> global (opts ch) = global (opts c)
      \<and> first ch = None \<and> second ch = None"
  by (simp add: newContainer_def newOptions_def Let_def)

lemma createSecond_empty:
  "\<exists>ch st1. createSecond [] st c = (None, st1, Container (cid c) (opts c) (first c) (Some ch))
      \<and> inherited (opts ch) = inherited (opts c) \<and> global (opts ch) = global (opts c)
      \<and> first ch = None \<and> second ch = None"
  by (simp add: newContainer_def newOptions_def Let_def)

lemma root0_eq: "root0 = Container 0 (opts root0) None None"
  by (rule container.expand) (simp add: root0_simps)

lemma root0_inherited:
  "inherited (opts root0) = \<lparr>borderColor = ColorDefault, focusedColor = ColorYellow,
      titleColor = None, titleFocusedColor = None\<rparr>"
  by (simp add: root0_def newContainer_def newOptions_def emptyStore_def)

lemma store0_simps: "nextGlobal store0 = 1" "nextCont store0 = 1"
  by (simp_all add: store0_def newContainer_def newOptions_def emptyStore_def)

text \<open>
  C7. \<^verbatim>\<open>newOptions\<close> with a parent copies the parent's inherited options and takes
  over the parent's pointer to the global options. A child created by a split starts
  with the inherited options of its parent; whatever options the children of a split
  apply, the inherited options of the parent stay as they were, and a colour option
  changes the inherited options of the container it is applied to and nothing that is
  shared (the store is unchanged). Every option keeps all containers of a tree on one
  and the same global options object, and a global option applied through any
  container \<open>n\<close> of the tree is what any container \<open>m\<close> of the tree reads afterwards.
\<close>

theorem inherited_copied_global_shared:
  "(newOptions (Some p) st = (o1, st1) \<longrightarrow> inherited o1 = inherited p \<and> global o1 = global p)
   \<and> (\<exists>ch st2. createFirst [] st c = (None, st2, Container (cid c) (opts c) (Some ch) (second c))
          \<and> inherited (opts ch) = inherited (opts c) \<and> global (opts ch) = global (opts c))
   \<and> (\<exists>ch st2. createSecond [] st c = (None, st2, Container (cid c) (opts c) (first c) (Some ch))
          \<and> inherited (opts ch) = inherited (opts c) \<and> global (opts ch) = global (opts c))
   \<and> inherited (opts (snd (snd (set_option (SplitVertical l r sopts) st c)))) = inherited (opts c)
   \<and> inherited (opts (snd (snd (set_option (SplitHorizontal l r sopts) st c)))) = inherited (opts c)
   \<and> set_option (BorderColor col) st c = (None, st, withInherited (\<lambda>h. h\<lparr>borderColor := col\<rparr>) c)
   \<and> set_option (FocusedColor col) st c = (None, st, withInherited (\<lambda>h. h\<lparr>focusedColor := col\<rparr>) c)
   \<and> set_option (TitleColor col) st c = (None, st, withInherited (\<lambda>h. h\<lparr>titleColor := Some col\<rparr>) c)
   \<and> set_option (TitleFocusedColor col) st c = (None, st, withInherited (\<lambda>h. h\<lparr>titleFocusedColor := Some col\<rparr>) c)
   \<and> (sharesGlobal g c \<longrightarrow> sharesGlobal g (snd (snd (set_option opt st c)))
          \<and> sharesGlobal g (snd (snd (applyOptions optList st c))))
   \<and> (sharesGlobal g t \<and> n \<in> set (nodes t) \<and> m \<in> set (nodes t) \<longrightarrow>
          globalOf (fst (snd (set_option (KeyFocusNext k) st n))) m
            = (globalOf st m)\<lparr>keyFocusNext := Some k\<rparr>
        \<and> globalOf (fst (snd (set_option (KeyFocusPrevious k) st n))) m
            = (globalOf st m)\<lparr>keyFocusPrevious := Some k\<rparr>
        \<and> globalOf (fst (snd (set_option (KeyFocusGroupsNext k groups) st n))) m
            = snd (keyFocusGroupsNextLoop k groups (globalOf st m))
        \<and> globalOf (fst (snd (set_option (KeyFocusGroupsPrevious k groups) st n))) m
            = snd (keyFocusGroupsPreviousLoop k groups (globalOf st m)))"
proof -
  have a: "newOptions (Some p) st = (o1, st1) \<longrightarrow> inherited o1 = inherited p \<and> global o1 = global p"
    using newOptions_parent by blast
  have b1: "\<exists>ch st2. createFirst [] st c = (None, st2, Container (cid c) (opts c) (Some ch) (second c))
          \<and> inherited (opts ch) = inherited (opts c) \<and> global (opts ch) = global (opts c)"
    using createFirst_empty [of st c] by blast
  have b2: "\<exists>ch st2. createSecond [] st c = (None, st2, Container (cid c) (opts c) (first c) (Some ch))
          \<and> inherited (opts ch) = inherited (opts c) \<and> global (opts ch) = global (opts c)"
    using createSecond_empty [of st c] by blast
  have c1: "inherited (opts (snd (snd (set_option (SplitVertical l r sopts) st c)))) = inherited (opts c)"
    by (simp only: split_result_opts setSplits_inherited) simp
  have c2: "inherited (opts (snd (snd (set_option (SplitHorizontal l r sopts) st c)))) = inherited (opts c)"
    by (simp only: split_result_opts setSplits_inherited) simp
  have d1: "set_option (BorderColor col) st c = (None, st, withInherited (\<lambda>h. h\<lparr>borderColor := col\<rparr>) c)"
    by simp
  have d2: "set_option (FocusedColor col) st c = (None, st, withInherited (\<lambda>h. h\<lparr>focusedColor := col\<rparr>) c)"
    by simp
  have d3: "set_option (TitleColor col) st c = (None, st, withInherited (\<lambda>h. h\<lparr>titleColor := Some col\<rparr>) c)"
    by simp
  have d4: "set_option (TitleFocusedColor col) st c = (None, st, withInherited (\<lambda>h. h\<lparr>titleFocusedColor := Some col\<rparr>) c)"
    by simp
  have e: "sharesGlobal g c \<longrightarrow> sharesGlobal g (snd (snd (set_option opt st c)))
          \<and> sharesGlobal g (snd (snd (applyOptions optList st c)))"
    using sharesGlobal_preserved(1,2) by blast
  have f: "sharesGlobal g t \<and> n \<in> set (nodes t) \<and> m \<in> set (nodes t) \<longrightarrow>
          globalOf (fst (snd (set_option (KeyFocusNext k) st n))) m
            = (globalOf st m)\<lparr>keyFocusNext := Some k\<rparr>
        \<and> globalOf (fst (snd (set_option (KeyFocusPrevious k) st n))) m
            = (globalOf st m)\<lparr>keyFocusPrevious := Some k\<rparr>
        \<and> globalOf (fst (snd (set_option (KeyFocusGroupsNext k groups) st n))) m
            = snd (keyFocusGroupsNextLoop k groups (globalOf st m))
        \<and> globalOf (fst (snd (set_option (KeyFocusGroupsPrevious k groups) st n))) m
            = snd (keyFocusGroupsPreviousLoop k groups (globalOf st m))"
  proof
    assume h: "sharesGlobal g t \<and> n \<in> set (nodes t) \<and> m \<in> set (nodes t)"
    then have gn: "global (opts n) = g" and gm: "global (opts m) = g"
      using sharesGlobal_nodes by blast+
    then have eq: "global (opts m) = global (opts n)" by simp
    have same: "globalOf st m = globalOf st n" using eq by (simp add: globalOf_def)
    show "globalOf (fst (snd (set_option (KeyFocusNext k) st n))) m
            = (globalOf st m)\<lparr>keyFocusNext := Some k\<rparr>
        \<and> globalOf (fst (snd (set_option (KeyFocusPrevious k) st n))) m
            = (globalOf st m)\<lparr>keyFocusPrevious := Some k\<rparr>
        \<and> globalOf (fst (snd (set_option (KeyFocusGroupsNext k groups) st n))) m
            = snd (keyFocusGroupsNextLoop k groups (globalOf st m))
        \<and> globalOf (fst (snd (set_option (KeyFocusGroupsPrevious k groups) st n))) m
            = snd (keyFocusGroupsPreviousLoop k groups (globalOf st m))"
      using eq same by (simp add: globalOf_withGlobal split: prod.splits)
  qed
  from a b1 b2 c1 c2 d1 d2 d3 d4 e f show ?thesis by (intro conjI)
qed

theorem inherited_copied_global_shared_witness:
  "inherited (opts (snd (snd (set_option (SplitVertical [BorderColor (ColorNumber 3)] [KeyFocusNext (Key 5)] [])
        store0 root0)))) = inherited (opts root0)
   \<and> sharesGlobal 0 (snd (snd (set_option (SplitVertical [BorderColor (ColorNumber 3)] [KeyFocusNext (Key 5)] [])
        store0 root0)))
   \<and> (case first (snd (snd (set_option (SplitVertical [BorderColor (ColorNumber 3)] [KeyFocusNext (Key 5)] [])
        store0 root0))) of
         None \<Rightarrow> False
       | Some ch \<Rightarrow> borderColor (inherited (opts ch)) = ColorNumber 3
           \<and> keyFocusNext (globalOf (fst (snd (set_option
                (SplitVertical [BorderColor (ColorNumber 3)] [KeyFocusNext (Key 5)] []) store0 root0))) ch)
               = Some (Key 5))
   \<and> keyFocusNext (globalOf (fst (snd (set_option
        (SplitVertical [BorderColor (ColorNumber 3)] [KeyFocusNext (Key 5)] []) store0 root0))) root0)
       = Some (Key 5)"
proof -
  let ?opt = "SplitVertical [BorderColor (ColorNumber 3)] [KeyFocusNext (Key 5)] []"
  have sg: "sharesGlobal 0 root0"
    by (subst root0_eq) (simp add: sharesGlobal_Container root0_simps)
  have a: "inherited (opts (snd (snd (set_option ?opt store0 root0)))) = inherited (opts root0)"
    by (rule inherited_copied_global_shared [where c = root0 and st = store0
          and l = "[BorderColor (ColorNumber 3)]" and r = "[KeyFocusNext (Key 5)]" and sopts = "[]",
          THEN conjunct2, THEN conjunct2, THEN conjunct2, THEN conjunct1])
  have b: "sharesGlobal 0 (snd (snd (set_option ?opt store0 root0)))"
    by (rule inherited_copied_global_shared [where c = root0 and st = store0 and g = 0 and opt = ?opt,
          THEN conjunct2, THEN conjunct2, THEN conjunct2, THEN conjunct2, THEN conjunct2,
          THEN conjunct2, THEN conjunct2, THEN conjunct2, THEN conjunct2, THEN conjunct1,
          THEN mp, OF sg, THEN conjunct1])
  have c: "case first (snd (snd (set_option ?opt store0 root0))) of
         None \<Rightarrow> False
       | Some ch \<Rightarrow> borderColor (inherited (opts ch)) = ColorNumber 3
           \<and> keyFocusNext (globalOf (fst (snd (set_option ?opt store0 root0))) ch) = Some (Key 5)"
    by (simp add: newContainer_def newOptions_def Let_def withInherited_def withOpts_def
        withGlobal_def globalOf_def root0_simps)
  have d: "keyFocusNext (globalOf (fst (snd (set_option ?opt store0 root0))) root0) = Some (Key 5)"
    by (simp add: newContainer_def newOptions_def Let_def withInherited_def withOpts_def
        withGlobal_def globalOf_def root0_simps)
  from a b c d show ?thesis by (intro conjI)
qed

end
